theory Spec2Isabelle
  imports Complex_Main "HOL-Library.List_Lexorder" "HOL-Library.Multiset" "HOL-Library.Word"
begin

section \<open>Python values used by excel\_to\_kml.py\<close>

subsection \<open>Strings\<close>

text \<open>
  A Python \<^verbatim>\<open>str\<close> is a sequence of Unicode code points, so it is a list of
  naturals here (an Isabelle \<^typ>\<open>char\<close> is only a byte, and the script's labels and
  column names are Cyrillic). \<open>lit\<close> writes the ASCII part of a literal; Cyrillic text
  is given by its code points.
\<close>

type_synonym pystr = "nat list"

definition lit :: "string \<Rightarrow> pystr" where
  "lit s = map of_char s"

text \<open>\<^verbatim>\<open>str.isspace\<close> for one code point: the characters \<^verbatim>\<open>str.strip()\<close> removes.\<close>

definition isspace :: "nat \<Rightarrow> bool" where
  "isspace c \<longleftrightarrow>
     (9 \<le> c \<and> c \<le> 13) \<or> (28 \<le> c \<and> c \<le> 32) \<or> c = 133 \<or> c = 160 \<or> c = 5760 \<or>
     (8192 \<le> c \<and> c \<le> 8202) \<or> c = 8232 \<or> c = 8233 \<or> c = 8239 \<or> c = 8287 \<or> c = 12288"

definition strip :: "pystr \<Rightarrow> pystr" where
  "strip s = rev (dropWhile isspace (rev (dropWhile isspace s)))"

text \<open>
  \<^verbatim>\<open>s.replace(old, new)\<close>: the occurrences of \<open>old\<close> are replaced from the left and do
  not overlap; an empty \<open>old\<close> matches before every character and at the end.
\<close>

function replace :: "pystr \<Rightarrow> pystr \<Rightarrow> pystr \<Rightarrow> pystr" where
  "replace old new [] = (if old = [] then new else [])"
| "replace old new (c # s) =
     (if old = [] then new @ c # replace old new s
      else if take (length old) (c # s) = old
        then new @ replace old new (drop (length old) (c # s))
      else c # replace old new s)"
  by pat_completeness auto
termination
  by (relation "measure (\<lambda>(old, new, s). length s)") auto

text \<open>\<^verbatim>\<open>s.split(sep)\<close> for a separator of one character, which is how the script calls it.\<close>

fun split :: "nat \<Rightarrow> pystr \<Rightarrow> pystr list" where
  "split sep [] = [[]]"
| "split sep (c # s) =
     (if c = sep then [] # split sep s
      else (case split sep s of w # ws \<Rightarrow> (c # w) # ws | [] \<Rightarrow> [[c]]))"

fun join :: "pystr \<Rightarrow> pystr list \<Rightarrow> pystr" where
  "join sep [] = []"
| "join sep [x] = x"
| "join sep (x # y # xs) = x @ sep @ join sep (y # xs)"

text \<open>\<^verbatim>\<open>html.escape(s)\<close> with its default \<^verbatim>\<open>quote=True\<close>.\<close>

definition escape_char :: "nat \<Rightarrow> pystr" where
  "escape_char c =
     (if c = 38 then lit ''&amp;''
      else if c = 60 then lit ''&lt;''
      else if c = 62 then lit ''&gt;''
      else if c = 34 then lit ''&quot;''
      else if c = 39 then lit ''&#x27;''
      else [c])"

definition html_escape :: "pystr \<Rightarrow> pystr" where
  "html_escape s = concat (map escape_char s)"

text \<open>\<^verbatim>\<open>str(n)\<close> and \<^verbatim>\<open>f"{n}"\<close> for a natural number.\<close>

fun str_nat :: "nat \<Rightarrow> pystr" where
  "str_nat n = (if n < 10 then [48 + n] else str_nat (n div 10) @ [48 + n mod 10])"

declare str_nat.simps [simp del]

text \<open>\<^verbatim>\<open>c.lower()\<close> on the ASCII letters.\<close>

definition ascii_lower :: "nat \<Rightarrow> nat" where
  "ascii_lower c = (if 65 \<le> c \<and> c \<le> 90 then c + 32 else c)"

subsection \<open>Floats\<close>

text \<open>
  A Python float is an IEEE binary64 value. \<open>Finite neg m e\<close> is the number
  \<open>(-1)\<^bsup>neg\<^esup> * m * 2\<^bsup>e\<^esup>\<close>, which every finite binary64 value is for some \<open>m\<close>
  and \<open>e\<close> (the sign is kept apart because \<^verbatim>\<open>-0.0\<close> prints its sign).
  Everything below is integer arithmetic, so that it can be evaluated.
\<close>

datatype pyfloat = Finite bool nat int | Inf bool | Nan

fun bitlen :: "nat \<Rightarrow> nat" where
  "bitlen n = (if n = 0 then 0 else Suc (bitlen (n div 2)))"

declare bitlen.simps [simp del]

text \<open>The quotient \<open>a / b\<close> rounded to the nearest integer, ties to the even one.\<close>

definition rne_div :: "nat \<Rightarrow> nat \<Rightarrow> nat" where
  "rne_div a b =
     (let q = a div b; r = a mod b
      in if 2 * r < b then q else if b < 2 * r then q + 1 else if even q then q else q + 1)"

text \<open>\<open>\<lfloor>log\<^sub>2 (a / b)\<rfloor>\<close> for positive \<open>a\<close> and \<open>b\<close>.\<close>

definition floor_log2 :: "nat \<Rightarrow> nat \<Rightarrow> int" where
  "floor_log2 a b =
     (let k = int (bitlen a) - int (bitlen b)
      in if (if 0 \<le> k then b * 2 ^ nat k \<le> a else b \<le> a * 2 ^ nat (- k)) then k else k - 1)"

text \<open>
  The binary64 value nearest to \<open>a / b\<close> (ties to even): 53 bits of mantissa, the least
  exponent \<open>-1074\<close> of the subnormal numbers, and infinity from \<open>2\<^bsup>1024\<^esup>\<close> on. The
  result is written in one way only: zero as \<open>Finite neg 0 0\<close>, a subnormal number with
  the exponent \<open>-1074\<close>, and any other number with a mantissa from \<open>2\<^bsup>52\<^esup>\<close> up to, and
  not including, \<open>2\<^bsup>53\<^esup>\<close> (a mantissa that the rounding takes to \<open>2\<^bsup>53\<^esup>\<close> is halved
  and the exponent raised), so that equal floats are equal terms.
\<close>

definition binary64 :: "bool \<Rightarrow> nat \<Rightarrow> nat \<Rightarrow> pyfloat" where
  "binary64 neg a b =
     (if a = 0 then Finite neg 0 0
      else
        let e = max (floor_log2 a b - 52) (- 1074);
            m = (if 0 \<le> e then rne_div a (b * 2 ^ nat e) else rne_div (a * 2 ^ nat (- e)) b)
        in if 971 \<le> e \<and> 2 ^ 1024 \<le> m * 2 ^ nat e then Inf neg
           else if m = 0 then Finite neg 0 0
           else if m = 2 ^ 53 then Finite neg (2 ^ 52) (e + 1)
           else Finite neg m e)"

text \<open>The float of the decimal number \<open>d * 10\<^bsup>x\<^esup>\<close>.\<close>

definition decimal64 :: "bool \<Rightarrow> nat \<Rightarrow> int \<Rightarrow> pyfloat" where
  "decimal64 neg d x =
     (if 0 \<le> x then binary64 neg (d * 10 ^ nat x) 1 else binary64 neg d (10 ^ nat (- x)))"

text \<open>
  \<^verbatim>\<open>float(s)\<close> for a string, after the grammar of the language reference:
  \<^verbatim>\<open>
  digitpart   ::= digit (["_"] digit)*
  number      ::= [digitpart] "." digitpart | digitpart ["."]
  exponent    ::= ("e" | "E") [sign] digitpart
  floatvalue  ::= [sign] (number [exponent] | "inf" | "infinity" | "nan")
  \<close>
  with the names in any case and white space around the value removed. \<open>None\<close> is
  \<^verbatim>\<open>ValueError\<close>. A digit is any decimal digit of Unicode (general category Nd), read
  with its value: in Unicode 14, the version of Python 3.11, these are 66 runs of ten
  code points, one for each script, from its digit zero to its digit nine;
  \<open>digit_zeros\<close> lists the zeros.
\<close>

definition digit_zeros :: "nat list" where
  "digit_zeros =
     [48, 1632, 1776, 1984, 2406, 2534, 2662, 2790, 2918, 3046, 3174, 3302, 3430, 3558, 3664,
      3792, 3872, 4160, 4240, 6112, 6160, 6470, 6608, 6784, 6800, 6992, 7088, 7232, 7248, 42528,
      43216, 43264, 43472, 43504, 43600, 44016, 65296, 66720, 68912, 69734, 69872, 69942, 70096,
      70384, 70736, 70864, 71248, 71360, 71472, 71904, 72016, 72784, 73040, 73120, 92768, 92864,
      93008, 120782, 120792, 120802, 120812, 120822, 123200, 123632, 125264, 130032]"

definition digit_value :: "nat \<Rightarrow> nat option" where
  "digit_value c = map_option (\<lambda>z. c - z) (find (\<lambda>z. z \<le> c \<and> c \<le> z + 9) digit_zeros)"

definition is_decimal :: "nat \<Rightarrow> bool" where
  "is_decimal c \<longleftrightarrow> digit_value c \<noteq> None"

text \<open>The ASCII digits, which are the digits that \<^verbatim>\<open>str\<close> and the formats write.\<close>

definition is_digit :: "nat \<Rightarrow> bool" where
  "is_digit c \<longleftrightarrow> 48 \<le> c \<and> c \<le> 57"

fun digitpart :: "pystr \<Rightarrow> bool" where
  "digitpart [] = False"
| "digitpart [c] = is_decimal c"
| "digitpart (c # d # s) = (is_decimal c \<and> (if d = 95 then digitpart s else digitpart (d # s)))"

definition digitpart_char :: "nat \<Rightarrow> bool" where
  "digitpart_char c \<longleftrightarrow> is_decimal c \<or> c = 95"

definition digits_val :: "pystr \<Rightarrow> nat" where
  "digits_val s =
     foldl (\<lambda>a c. 10 * a + (case digit_value c of None \<Rightarrow> 0 | Some d \<Rightarrow> d)) 0
       (filter is_decimal s)"

definition py_exponent :: "pystr \<Rightarrow> int option" where
  "py_exponent r =
     (case r of
        [] \<Rightarrow> Some 0
      | c # t \<Rightarrow>
          if c = 101 \<or> c = 69 then
            (let neg = (case t of [] \<Rightarrow> False | sg # v \<Rightarrow> sg = 45);
                 u = (case t of [] \<Rightarrow> [] | sg # v \<Rightarrow> if sg = 43 \<or> sg = 45 then v else t)
             in if digitpart u
                then Some (if neg then - int (digits_val u) else int (digits_val u))
                else None)
          else None)"

definition py_number :: "pystr \<Rightarrow> (nat \<times> int) option" where
  "py_number s =
     (let ip = takeWhile digitpart_char s;
          r1 = dropWhile digitpart_char s;
          dot = (case r1 of [] \<Rightarrow> False | c # t \<Rightarrow> c = 46);
          fp = (if dot then takeWhile digitpart_char (tl r1) else []);
          r2 = (if dot then dropWhile digitpart_char (tl r1) else r1);
          ok = (if dot then (ip = [] \<and> digitpart fp) \<or> (digitpart ip \<and> (fp = [] \<or> digitpart fp))
                else digitpart ip)
      in if ok
         then map_option (\<lambda>x. (digits_val (ip @ fp), x - int (length (filter is_decimal fp))))
                (py_exponent r2)
         else None)"

text \<open>
  \<^verbatim>\<open>float\<close> removes the six ASCII white-space characters from the ends of an ASCII
  string, and every Unicode white space from the ends of any other string.
\<close>

definition float_space :: "pystr \<Rightarrow> nat \<Rightarrow> bool" where
  "float_space s c \<longleftrightarrow>
     (if \<forall>d \<in> set s. d < 128 then (9 \<le> c \<and> c \<le> 13) \<or> c = 32 else isspace c)"

definition float_strip :: "pystr \<Rightarrow> pystr" where
  "float_strip s = rev (dropWhile (float_space s) (rev (dropWhile (float_space s) s)))"

definition py_float :: "pystr \<Rightarrow> pyfloat option" where
  "py_float s0 =
     (let s = float_strip s0;
          neg = (case s of [] \<Rightarrow> False | c # t \<Rightarrow> c = 45);
          u = (case s of [] \<Rightarrow> [] | c # t \<Rightarrow> if c = 43 \<or> c = 45 then t else s);
          l = map ascii_lower u
      in if l = lit ''inf'' \<or> l = lit ''infinity'' then Some (Inf neg)
         else if l = lit ''nan'' then Some Nan
         else map_option (\<lambda>(d, x). decimal64 neg d x) (py_number u))"

text \<open>The comparisons \<^verbatim>\<open>i <= x\<close> and \<^verbatim>\<open>x <= i\<close> of a float with an integer literal.\<close>

fun int_le_float :: "int \<Rightarrow> pyfloat \<Rightarrow> bool" where
  "int_le_float i (Finite neg m e) =
     (let v = (if neg then - int m else int m)
      in if 0 \<le> e then i \<le> v * 2 ^ nat e else i * 2 ^ nat (- e) \<le> v)"
| "int_le_float i (Inf neg) = (\<not> neg)"
| "int_le_float i Nan = False"

fun float_le_int :: "pyfloat \<Rightarrow> int \<Rightarrow> bool" where
  "float_le_int (Finite neg m e) i =
     (let v = (if neg then - int m else int m)
      in if 0 \<le> e then v * 2 ^ nat e \<le> i else v \<le> i * 2 ^ nat (- e))"
| "float_le_int (Inf neg) i = neg"
| "float_le_int Nan i = False"

text \<open>
  \<^verbatim>\<open>f"{x:.8f}"\<close>: the exact value rounded to eight decimals (ties to even), the integer
  part, a dot and eight digits; the sign is the float's sign bit.
\<close>

definition pad_zeros :: "nat \<Rightarrow> pystr \<Rightarrow> pystr" where
  "pad_zeros w ds = replicate (w - length ds) 48 @ ds"

fun format_8f :: "pyfloat \<Rightarrow> pystr" where
  "format_8f (Finite neg m e) =
     (let n = (if 0 \<le> e then m * 2 ^ nat e * 10 ^ 8 else rne_div (m * 10 ^ 8) (2 ^ nat (- e)))
      in (if neg then lit ''-'' else []) @ str_nat (n div 10 ^ 8) @ lit ''.'' @
         pad_zeros 8 (str_nat (n mod 10 ^ 8)))"
| "format_8f (Inf neg) = (if neg then lit ''-inf'' else lit ''inf'')"
| "format_8f Nan = lit ''nan''"

section \<open>Cells and the coordinate normaliser\<close>

text \<open>
  The sheet is read with \<^verbatim>\<open>dtype=str\<close>, so a cell of the data frame is either a
  string or pandas' missing value (the float NaN): \<^verbatim>\<open>pd.isna\<close> holds of \<open>NA\<close>
  only, \<^verbatim>\<open>str(NA)\<close> is \<^verbatim>\<open>"nan"\<close>, and NaN is true as a condition.
\<close>

datatype cell = NA | Text pystr

fun isna :: "cell \<Rightarrow> bool" where
  "isna NA = True"
| "isna (Text s) = False"

fun str_cell :: "cell \<Rightarrow> pystr" where
  "str_cell NA = lit ''nan''"
| "str_cell (Text s) = s"

fun truthy :: "cell \<Rightarrow> bool" where
  "truthy NA = True"
| "truthy (Text s) = (s \<noteq> [])"

text \<open>
  \<^verbatim>\<open>ensure_float\<close>. Its branch for \<^verbatim>\<open>int\<close> and \<^verbatim>\<open>float\<close> arguments has no case
  here: no cell of a sheet read with \<^verbatim>\<open>dtype=str\<close> is a number (the missing value is
  caught by \<^verbatim>\<open>pd.isna\<close> before it). The \<^verbatim>\<open>ValueError\<close> of \<^verbatim>\<open>float\<close> is caught
  and becomes \<open>None\<close>.
\<close>

definition normalize_number :: "pystr \<Rightarrow> pystr" where
  "normalize_number s = replace (lit '','') (lit ''.'') (replace (lit '' '') [] (strip s))"

fun ensure_float :: "cell \<Rightarrow> pyfloat option" where
  "ensure_float NA = None"
| "ensure_float (Text s) = py_float (normalize_number s)"

subsection \<open>in\_range\_lat\_lon\<close>

text \<open>
  The arguments are the entries of the two computed columns: \<open>None\<close> where
  \<open>ensure_float\<close> gave \<open>None\<close>. (pandas may store that \<open>None\<close> as NaN in a column of
  floats; every comparison with NaN is false, so the function is false on it either way.)
\<close>

fun in_range_lat_lon :: "pyfloat option \<Rightarrow> pyfloat option \<Rightarrow> bool" where
  "in_range_lat_lon (Some lat) (Some lon) =
     (int_le_float (- 90) lat \<and> float_le_int lat 90 \<and>
      int_le_float (- 180) lon \<and> float_le_int lon 180)"
| "in_range_lat_lon lat lon = False"

section \<open>The style of a district\<close>

text \<open>
  \<^verbatim>\<open>hashlib.md5\<close> is a parameter: \<open>md5 d\<close> is the 128-bit digest of the UTF-8 bytes of
  \<open>d\<close>, read as a number. \<^verbatim>\<open>hexdigest()\<close> writes that number with 32 lower-case
  hexadecimal digits (\<open>hex_digits k n\<close> are the last \<open>k\<close> digits of \<open>n\<close>), and
  \<^verbatim>\<open>int(hexdigest, 16)\<close> reads the number back (lemma \<open>int_of_hex_hexdigest\<close>).
\<close>

definition hexdigit_lower :: "nat \<Rightarrow> nat" where
  "hexdigit_lower d = (if d < 10 then 48 + d else 87 + d)"

definition hexdigit_upper :: "nat \<Rightarrow> nat" where
  "hexdigit_upper d = (if d < 10 then 48 + d else 55 + d)"

primrec hex_digits :: "nat \<Rightarrow> nat \<Rightarrow> pystr" where
  "hex_digits 0 n = []"
| "hex_digits (Suc k) n = hex_digits k (n div 16) @ [hexdigit_lower (n mod 16)]"

definition hexdigest :: "128 word \<Rightarrow> pystr" where
  "hexdigest w = hex_digits 32 (unat w)"

text \<open>\<^verbatim>\<open>f"{n:02X}"\<close>: upper-case hexadecimal digits, filled with zeros to two characters.\<close>

fun hex_upper :: "nat \<Rightarrow> pystr" where
  "hex_upper n =
     (if n < 16 then [hexdigit_upper n] else hex_upper (n div 16) @ [hexdigit_upper (n mod 16)])"

declare hex_upper.simps [simp del]

definition format_02X :: "int \<Rightarrow> pystr" where
  "format_02X i =
     (if i < 0 then lit ''-'' @ pad_zeros 1 (hex_upper (nat (- i)))
      else pad_zeros 2 (hex_upper (nat i)))"

text \<open>\<^verbatim>\<open>int(x)\<close> truncates towards zero; \<^verbatim>\<open>a % b\<close> has the sign of \<open>b\<close>.\<close>

definition py_int :: "rat \<Rightarrow> int" where
  "py_int q = (if 0 \<le> q then \<lfloor>q\<rfloor> else \<lceil>q\<rceil>)"

definition py_mod :: "rat \<Rightarrow> rat \<Rightarrow> rat" where
  "py_mod a b = a - b * of_int \<lfloor>a / b\<rfloor>"

text \<open>
  \<^verbatim>\<open>kml_color_from_district\<close>. The script computes the channels in binary64; they are
  computed exactly here, in \<^typ>\<open>rat\<close>. For each of the 360 hues the exact value of a
  channel times 255 is at least 1/80 away from every integer (lemma
  \<open>channel_margin\<close> below), far more than the rounding error of the few float operations,
  so \<^verbatim>\<open>int\<close> truncates both to the same integer.
\<close>

definition hsv_channels :: "nat \<Rightarrow> rat \<times> rat \<times> rat" where
  "hsv_channels h =
     (let s = 7 / 10; v = 95 / 100;
          c = v * s;
          x = c * (1 - \<bar>py_mod (of_nat h / 60) 2 - 1\<bar>);
          m = v - c;
          rgb = (if 0 \<le> h \<and> h < 60 then (c, x, 0)
                 else if 60 \<le> h \<and> h < 120 then (x, c, 0)
                 else if 120 \<le> h \<and> h < 180 then (0, c, x)
                 else if 180 \<le> h \<and> h < 240 then (0, x, c)
                 else if 240 \<le> h \<and> h < 300 then (x, 0, c)
                 else (c, 0, x))
      in (fst rgb + m, fst (snd rgb) + m, snd (snd rgb) + m))"

definition kml_color_from_district :: "(pystr \<Rightarrow> 128 word) \<Rightarrow> pystr \<Rightarrow> pystr" where
  "kml_color_from_district md5 district =
     (let h = unat (md5 district) mod 360;
          rgb = hsv_channels h;
          R = py_int (fst rgb * 255);
          G = py_int (fst (snd rgb) * 255);
          B = py_int (snd (snd rgb) * 255)
      in lit ''FF'' @ format_02X B @ format_02X G @ format_02X R)"

text \<open>The style identifier of the loop over the districts in \<^verbatim>\<open>excel_to_kml\<close>.\<close>

definition style_id :: "(pystr \<Rightarrow> 128 word) \<Rightarrow> pystr \<Rightarrow> pystr" where
  "style_id md5 d = lit ''style_'' @ take 8 (hexdigest (md5 d))"

section \<open>Elements and their serialisation\<close>

text \<open>
  An \<^verbatim>\<open>ET.Element\<close>: tag, attributes in insertion order, text and children. An empty
  text stands for both \<^verbatim>\<open>None\<close> and \<^verbatim>\<open>""\<close>, which the serialiser treats alike;
  the script sets no tail.
\<close>

datatype elem = Element pystr "(pystr \<times> pystr) list" pystr "elem list"

text \<open>\<^verbatim>\<open>_escape_cdata\<close> and \<^verbatim>\<open>_escape_attrib\<close> of \<^verbatim>\<open>xml.etree.ElementTree\<close>.\<close>

definition escape_cdata :: "pystr \<Rightarrow> pystr" where
  "escape_cdata s =
     replace (lit ''>'') (lit ''&gt;'')
       (replace (lit ''<'') (lit ''&lt;'') (replace (lit ''&'') (lit ''&amp;'') s))"

definition escape_attrib :: "pystr \<Rightarrow> pystr" where
  "escape_attrib s =
     replace [9] (lit ''&#09;'') (replace [10] (lit ''&#10;'') (replace [13] (lit ''&#13;'')
       (replace [34] (lit ''&quot;'') (replace (lit ''>'') (lit ''&gt;'')
         (replace (lit ''<'') (lit ''&lt;'') (replace (lit ''&'') (lit ''&amp;'') s))))))"

text \<open>
  \<^verbatim>\<open>_serialize_xml\<close> with \<^verbatim>\<open>short_empty_elements\<close>; with the encoding
  \<^verbatim>\<open>utf-8\<close>, \<^verbatim>\<open>ET.tostring\<close> writes no XML declaration, and decoding its bytes gives
  the serialised text back.
\<close>

fun serialize_xml :: "elem \<Rightarrow> pystr" where
  "serialize_xml (Element tag attrib txt kids) =
     lit ''<'' @ tag @
     concat (map (\<lambda>kv. lit '' '' @ fst kv @ lit ''='' @ [34] @ escape_attrib (snd kv) @ [34]) attrib) @
     (if txt \<noteq> [] \<or> kids \<noteq> []
      then lit ''>'' @ escape_cdata txt @ concat (map serialize_xml kids) @
           lit ''</'' @ tag @ lit ''>''
      else lit '' />'')"

definition tostring :: "elem \<Rightarrow> pystr" where
  "tostring e = serialize_xml e"

definition leaf :: "string \<Rightarrow> pystr \<Rightarrow> elem" where
  "leaf tag txt = Element (lit tag) [] txt []"

definition create_style :: "pystr \<Rightarrow> pystr \<Rightarrow> elem" where
  "create_style sid color =
     Element (lit ''Style'') [(lit ''id'', sid)] []
       [Element (lit ''IconStyle'') [] []
          [leaf ''color'' color,
           leaf ''scale'' (lit ''1.2''),
           Element (lit ''Icon'') [] []
             [leaf ''href'' (lit ''http://maps.google.com/mapfiles/kml/pushpin/ylw-pushpin.png'')]],
        Element (lit ''LabelStyle'') [] [] [leaf ''scale'' (lit ''0.9'')]]"

section \<open>build\_description\<close>

definition label_addr :: pystr where
  "label_addr = [1040, 1076, 1088, 1077, 1089, 58]"

definition label_obj :: pystr where
  "label_obj = [1054, 1073, 1098, 1077, 1082, 1090, 58]"

definition label_topic :: pystr where
  "label_topic = [1055, 1088, 1086, 1073, 1083, 1077, 1084, 1072, 58]"

definition label_text :: pystr where
  "label_text = [1058, 1077, 1082, 1089, 1090, 58]"

definition label_photo :: pystr where
  "label_photo = [1060, 1086, 1090, 1086]"

text \<open>One \<^verbatim>\<open>if v: parts.append(f"<b>label</b> {html.escape(str(v))}")\<close>.\<close>

definition field_part :: "pystr \<Rightarrow> cell \<Rightarrow> pystr list" where
  "field_part label v =
     (if truthy v then [lit ''<b>'' @ label @ lit ''</b> '' @ html_escape (str_cell v)] else [])"

definition photo_anchor :: "pystr \<Rightarrow> nat \<Rightarrow> pystr" where
  "photo_anchor u i =
     lit ''<a href='' @ [34] @ html_escape u @ [34] @ lit '' target='' @ [34] @ lit ''_blank'' @
     [34] @ lit ''>'' @ label_photo @ lit '' '' @ str_nat i @ lit ''</a>''"

text \<open>The loop over \<^verbatim>\<open>enumerate(links, 1)\<close>: the counter also counts a skipped link.\<close>

fun photo_anchors :: "nat \<Rightarrow> pystr list \<Rightarrow> pystr list" where
  "photo_anchors i [] = []"
| "photo_anchors i (u # us) =
     (if strip u = [] then photo_anchors (Suc i) us
      else photo_anchor (strip u) i # photo_anchors (Suc i) us)"

definition photo_part :: "pystr list \<Rightarrow> pystr list" where
  "photo_part links =
     (if links \<noteq> [] then
        (let a = photo_anchors 1 links
         in if a \<noteq> [] then [lit ''<b>'' @ label_photo @ lit '':</b> '' @ join (lit '' | '') a]
            else [])
      else [])"

definition description_parts :: "cell \<Rightarrow> cell \<Rightarrow> cell \<Rightarrow> cell \<Rightarrow> pystr list \<Rightarrow> pystr list" where
  "description_parts addr obj topic text_msg links =
     field_part label_addr addr @ field_part label_obj obj @ field_part label_topic topic @
     field_part label_text text_msg @ photo_part links"

definition build_description :: "cell \<Rightarrow> cell \<Rightarrow> cell \<Rightarrow> cell \<Rightarrow> pystr list \<Rightarrow> pystr" where
  "build_description addr obj topic text_msg links =
     lit ''<![CDATA['' @ join (lit ''<br/>'') (description_parts addr obj topic text_msg links) @
     lit '']]>''"

section \<open>excel\_to\_kml\<close>

subsection \<open>The sheet and the data frame\<close>

text \<open>
  A workbook gives the rows of cells of each of its sheets. \<^verbatim>\<open>pd.read_excel\<close> with
  \<^verbatim>\<open>header=2\<close> takes the third row as the column labels and the rows below it as the
  data. For a sheet with no rows at all it returns the empty data frame, with no column
  and no row; it raises when there is no such sheet, and when the sheet has rows but
  no third row. A column label is the text
  of its header cell (pandas renames an empty header cell to \<^verbatim>\<open>Unnamed: n\<close> and a
  repeated label to \<^verbatim>\<open>label.n\<close>; neither is a name the script asks for, so a column
  is found at the first header cell that holds its name).
\<close>

type_synonym sheet = "cell list list"

type_synonym workbook = "pystr \<Rightarrow> sheet option"

record dataframe =
  df_columns :: "cell list"
  df_rows :: "cell list list"

definition read_excel :: "workbook \<Rightarrow> pystr \<Rightarrow> dataframe option" where
  "read_excel wb sheet_name =
     (case wb sheet_name of
        None \<Rightarrow> None
      | Some sh \<Rightarrow>
          if sh = [] then Some \<lparr>df_columns = [], df_rows = []\<rparr>
          else if length sh < 3 then None
          else Some \<lparr>df_columns = sh ! 2, df_rows = drop 3 sh\<rparr>)"

definition col_message_id :: pystr where
  "col_message_id = [1053, 1086, 1084, 1077, 1088, 32, 1089, 1086, 1086, 1073, 1097, 1077, 1085,
     1080, 1103]"

definition col_okrug :: pystr where
  "col_okrug = [1054, 1082, 1088, 1091, 1075]"

definition col_rayon :: pystr where
  "col_rayon = [1056, 1072, 1081, 1086, 1085]"

definition col_addr :: pystr where
  "col_addr = [1040, 1076, 1088, 1077, 1089]"

definition col_obj :: pystr where
  "col_obj = [1053, 1072, 1079, 1074, 1072, 1085, 1080, 1077, 32, 1086, 1073, 1098, 1077, 1082,
     1090, 1072]"

definition col_topic :: pystr where
  "col_topic = [1055, 1088, 1086, 1073, 1083, 1077, 1084, 1085, 1072, 1103, 32, 1090, 1077, 1084,
     1072]"

definition col_text :: pystr where
  "col_text = [1058, 1077, 1082, 1089, 1090, 32, 1089, 1086, 1086, 1073, 1097, 1077, 1085, 1080,
     1103]"

definition col_links :: pystr where
  "col_links = [1057, 1089, 1099, 1083, 1082, 1080, 32, 1085, 1072, 32, 1092, 1086, 1090, 1086,
     1075, 1088, 1072, 1092, 1080, 1080, 32, 1089, 1086, 1086, 1073, 1097, 1077, 1085, 1080, 1103]"

definition col_lat :: pystr where
  "col_lat = [1064, 1080, 1088, 1086, 1090, 1072]"

definition col_lon :: pystr where
  "col_lon = [1044, 1086, 1083, 1075, 1086, 1090, 1072]"

definition required_cols :: "pystr list" where
  "required_cols = [col_message_id, col_okrug, col_rayon, col_addr, col_obj, col_topic, col_text,
     col_links, col_lat, col_lon]"

text \<open>The loop over \<^verbatim>\<open>required_cols\<close>: the first required column that is absent.\<close>

definition missing_column :: "cell list \<Rightarrow> pystr option" where
  "missing_column cols = find (\<lambda>c. Text c \<notin> set cols) required_cols"

text \<open>
  \<^verbatim>\<open>row[col]\<close>; a row shorter than the header is missing its last cells. The script
  reads a column only after the check of the required columns, so the \<^verbatim>\<open>KeyError\<close>
  of an absent column is not a case.
\<close>

definition cell_of :: "cell list \<Rightarrow> pystr \<Rightarrow> cell list \<Rightarrow> cell" where
  "cell_of cols c r =
     (let i = length (takeWhile (\<lambda>h. h \<noteq> Text c) cols) in if i < length r then r ! i else NA)"

text \<open>
  A row of the data frame as the script reads it: the ten required columns and the two
  columns that it adds with \<^verbatim>\<open>ensure_float\<close>.
\<close>

record row =
  cell_id :: cell
  cell_okrug :: cell
  cell_rayon :: cell
  cell_addr :: cell
  cell_obj :: cell
  cell_topic :: cell
  cell_text :: cell
  cell_links :: cell
  cell_lat :: cell
  cell_lon :: cell
  lat_num :: "pyfloat option"
  lon_num :: "pyfloat option"

definition row_of :: "cell list \<Rightarrow> cell list \<Rightarrow> row" where
  "row_of cols r =
     \<lparr>cell_id = cell_of cols col_message_id r,
      cell_okrug = cell_of cols col_okrug r,
      cell_rayon = cell_of cols col_rayon r,
      cell_addr = cell_of cols col_addr r,
      cell_obj = cell_of cols col_obj r,
      cell_topic = cell_of cols col_topic r,
      cell_text = cell_of cols col_text r,
      cell_links = cell_of cols col_links r,
      cell_lat = cell_of cols col_lat r,
      cell_lon = cell_of cols col_lon r,
      lat_num = ensure_float (cell_of cols col_lat r),
      lon_num = ensure_float (cell_of cols col_lon r)\<rparr>"

subsection \<open>valid\_row\<close>

definition msg_empty :: pystr where
  "msg_empty = [58, 32, 1087, 1091, 1089, 1090, 1086, 1081, 32, 39, 1053, 1086, 1084, 1077, 1088,
     32, 1089, 1086, 1086, 1073, 1097, 1077, 1085, 1080, 1103, 39, 32, 1074, 32, 1089, 1090, 1088,
     1086, 1082, 1077, 32, 69, 120, 99, 101, 108, 32]"

definition msg_coords :: pystr where
  "msg_coords = [58, 32, 1085, 1077, 1074, 1077, 1088, 1085, 1099, 1077, 32, 1082, 1086, 1086,
     1088, 1076, 1080, 1085, 1072, 1090, 1099, 32, 1074, 32, 1089, 1090, 1088, 1086, 1082, 1077,
     32, 69, 120, 99, 101, 108, 32]"

text \<open>
  \<^verbatim>\<open>valid_row\<close> appends to the list \<^verbatim>\<open>problems\<close> of the enclosing function, which
  is passed and returned here; \<open>idx\<close> is \<^verbatim>\<open>row.name\<close>, the position of the row in the
  data frame counted from 0.
\<close>

definition valid_row :: "pystr \<Rightarrow> nat \<Rightarrow> row \<Rightarrow> pystr list \<Rightarrow> bool \<times> pystr list" where
  "valid_row fname idx r problems =
     (if isna (cell_id r) \<or> strip (str_cell (cell_id r)) = [] then
        (False, problems @ [fname @ msg_empty @ str_nat (idx + 1)])
      else if \<not> in_range_lat_lon (lat_num r) (lon_num r) then
        (False, problems @ [fname @ msg_coords @ str_nat (idx + 1) @ lit '': lat='' @
           str_cell (cell_lat r) @ lit '', lon='' @ str_cell (cell_lon r)])
      else (True, problems))"

text \<open>\<^verbatim>\<open>df.apply(valid_row, axis=1)\<close>: one call for each row, in the order of the rows.\<close>

fun apply_valid_row :: "pystr \<Rightarrow> nat \<Rightarrow> row list \<Rightarrow> pystr list \<Rightarrow> bool list \<times> pystr list" where
  "apply_valid_row fname idx [] problems = ([], problems)"
| "apply_valid_row fname idx (r # rs) problems =
     (let res = valid_row fname idx r problems;
          rest = apply_valid_row fname (Suc idx) rs (snd res)
      in (fst res # fst rest, snd rest))"

text \<open>\<^verbatim>\<open>df[mask]\<close>: the rows whose entry of the mask is true.\<close>

definition select_rows :: "bool list \<Rightarrow> row list \<Rightarrow> row list" where
  "select_rows keep rs = map snd (filter fst (zip keep rs))"

subsection \<open>Styles\<close>

text \<open>
  \<^verbatim>\<open>sorted(df_valid[...].dropna().unique())\<close>: the distinct district cells that are
  not missing, in the order of Python's strings (by code point), and the dictionary
  \<^verbatim>\<open>style_ids\<close> filled in that order.
\<close>

definition districts :: "row list \<Rightarrow> pystr list" where
  "districts valid = sort (remdups (concat (map (\<lambda>r. case cell_rayon r of NA \<Rightarrow> [] | Text d \<Rightarrow> [d]) valid)))"

definition style_ids :: "(pystr \<Rightarrow> 128 word) \<Rightarrow> pystr list \<Rightarrow> pystr \<Rightarrow> pystr option" where
  "style_ids md5 ds = map_of (map (\<lambda>d. (d, style_id md5 d)) ds)"

definition style_elems :: "(pystr \<Rightarrow> 128 word) \<Rightarrow> pystr list \<Rightarrow> elem list" where
  "style_elems md5 ds = map (\<lambda>d. create_style (style_id md5 d) (kml_color_from_district md5 d)) ds"

subsection \<open>Folders\<close>

text \<open>
  The folders of the document, in the order in which they were appended: each okrug
  folder with its district folders, each district folder with its placemarks. The two
  dictionaries \<^verbatim>\<open>okrug_folders\<close> and \<^verbatim>\<open>folder_map\<close> hold exactly the folders that were
  appended to the tree, under their names, so a folder is looked up in the tree by its
  key, and the element that \<^verbatim>\<open>get_pair_folder\<close> returns is addressed by that key.
\<close>

type_synonym folders = "(pystr \<times> (pystr \<times> elem list) list) list"

definition update_entry :: "'k \<Rightarrow> ('v \<Rightarrow> 'v) \<Rightarrow> ('k \<times> 'v) list \<Rightarrow> ('k \<times> 'v) list" where
  "update_entry k f kvs = map (\<lambda>kv. if fst kv = k then (fst kv, f (snd kv)) else kv) kvs"

definition get_okrug_folder :: "pystr \<Rightarrow> folders \<Rightarrow> folders" where
  "get_okrug_folder okrug fs = (if okrug \<notin> set (map fst fs) then fs @ [(okrug, [])] else fs)"

definition in_folder_map :: "pystr \<Rightarrow> pystr \<Rightarrow> folders \<Rightarrow> bool" where
  "in_folder_map okrug rayon fs \<longleftrightarrow>
     (case map_of fs okrug of None \<Rightarrow> False | Some ds \<Rightarrow> rayon \<in> set (map fst ds))"

definition get_pair_folder :: "pystr \<Rightarrow> pystr \<Rightarrow> folders \<Rightarrow> folders" where
  "get_pair_folder okrug rayon fs =
     (if \<not> in_folder_map okrug rayon fs
      then update_entry okrug (\<lambda>ds. ds @ [(rayon, [])]) (get_okrug_folder okrug fs)
      else fs)"

text \<open>\<^verbatim>\<open>ET.SubElement(folder, "Placemark")\<close> on the folder of the pair.\<close>

definition append_placemark :: "pystr \<Rightarrow> pystr \<Rightarrow> elem \<Rightarrow> folders \<Rightarrow> folders" where
  "append_placemark okrug rayon pm fs =
     update_entry okrug (update_entry rayon (\<lambda>pms. pms @ [pm])) fs"

subsection \<open>Placemarks\<close>

datatype error = SystemExit pystr | ReadError | TypeError

text \<open>\<^verbatim>\<open>row[...] or ""\<close>, \<^verbatim>\<open>str\<close>, and the list of the stripped segments that are not blank.\<close>

definition row_links :: "row \<Rightarrow> pystr list" where
  "row_links r =
     (let links_raw = (if truthy (cell_links r) then str_cell (cell_links r) else [])
      in map strip (filter (\<lambda>u. strip u \<noteq> []) (split 59 links_raw)))"

definition coordinates_text :: "pyfloat \<Rightarrow> pyfloat \<Rightarrow> pystr" where
  "coordinates_text lon lat = format_8f lon @ lit '','' @ format_8f lat @ lit '',0''"

definition placemark :: "(pystr \<Rightarrow> pystr option) \<Rightarrow> row \<Rightarrow> pyfloat \<Rightarrow> pyfloat \<Rightarrow> elem" where
  "placemark sids r lat lon =
     Element (lit ''Placemark'') [] []
       ([leaf ''name'' (strip (str_cell (cell_id r)))] @
        (case sids (strip (str_cell (cell_rayon r))) of
           None \<Rightarrow> []
         | Some sid \<Rightarrow> if sid \<noteq> [] then [leaf ''styleUrl'' (lit ''#'' @ sid)] else []) @
        [leaf ''description''
           (build_description (cell_addr r) (cell_obj r) (cell_topic r) (cell_text r) (row_links r)),
         Element (lit ''Point'') [] [] [leaf ''coordinates'' (coordinates_text lon lat)]])"

text \<open>
  The body of the loop over the valid rows. \<^verbatim>\<open>float(None)\<close> would be a
  \<^verbatim>\<open>TypeError\<close>; the state is the folders and the counter \<^verbatim>\<open>written\<close>.
\<close>

definition add_row :: "(pystr \<Rightarrow> pystr option) \<Rightarrow> row \<Rightarrow> folders \<times> nat \<Rightarrow> error + folders \<times> nat" where
  "add_row sids r st =
     (let okrug = strip (str_cell (cell_okrug r));
          rayon = strip (str_cell (cell_rayon r));
          fs = get_pair_folder okrug rayon (fst st)
      in case lat_num r of
           None \<Rightarrow> Inl TypeError
         | Some lat \<Rightarrow>
             (case lon_num r of
                None \<Rightarrow> Inl TypeError
              | Some lon \<Rightarrow>
                  Inr (append_placemark okrug rayon (placemark sids r lat lon) fs, Suc (snd st))))"

fun add_rows :: "(pystr \<Rightarrow> pystr option) \<Rightarrow> row list \<Rightarrow> folders \<times> nat \<Rightarrow> error + folders \<times> nat" where
  "add_rows sids [] st = Inr st"
| "add_rows sids (r # rs) st =
     (case add_row sids r st of Inl e \<Rightarrow> Inl e | Inr st' \<Rightarrow> add_rows sids rs st')"

subsection \<open>The document\<close>

definition folder_elem :: "pystr \<Rightarrow> elem list \<Rightarrow> elem" where
  "folder_elem nm kids = Element (lit ''Folder'') [] [] (leaf ''name'' nm # kids)"

definition okrug_elem :: "pystr \<times> (pystr \<times> elem list) list \<Rightarrow> elem" where
  "okrug_elem f = folder_elem (fst f) (map (\<lambda>d. folder_elem (fst d) (snd d)) (snd f))"

definition kml_root :: "pystr \<Rightarrow> elem list \<Rightarrow> folders \<Rightarrow> elem" where
  "kml_root out_name styles fs =
     Element (lit ''kml'') [(lit ''xmlns'', lit ''http://www.opengis.net/kml/2.2'')] []
       [Element (lit ''Document'') [] [] (leaf ''name'' out_name # styles @ map okrug_elem fs)]"

text \<open>
  The part of a \<^verbatim>\<open>pathlib.Path\<close> that the script reads: the path itself, its
  \<^verbatim>\<open>name\<close> and its \<^verbatim>\<open>suffix\<close>. The file system maps a path to the text of its file.
\<close>

record path =
  path_str :: pystr
  path_name :: pystr
  path_suffix :: pystr

type_synonym filesystem = "pystr \<Rightarrow> pystr option"

definition msg_suffix :: pystr where
  "msg_suffix = [58, 32, 1087, 1086, 1076, 1076, 1077, 1088, 1078, 1080, 1074, 1072, 1102, 1090,
     1089, 1103, 32, 1090, 1086, 1083, 1100, 1082, 1086, 32, 46, 120, 108, 115, 120, 47, 46, 120,
     108, 115, 109, 32, 40, 1089, 1082, 1086, 1085, 1074, 1077, 1088, 1090, 1080, 1088, 1091, 1081,
     1090, 1077, 32, 46, 120, 108, 115, 32, 1074, 32, 46, 120, 108, 115, 120, 41]"

definition msg_column :: pystr where
  "msg_column = [58, 32, 1086, 1090, 1089, 1091, 1090, 1089, 1090, 1074, 1091, 1077, 1090, 32,
     1086, 1073, 1103, 1079, 1072, 1090, 1077, 1083, 1100, 1085, 1072, 1103, 32, 1082, 1086, 1083,
     1086, 1085, 1082, 1072, 58, 32]"

text \<open>
  \<^verbatim>\<open>excel_to_kml\<close>: the result and the file system after the call. The lower case of
  the suffix is compared with two ASCII literals, which only ASCII letters can equal.
\<close>

definition excel_to_kml ::
  "(pystr \<Rightarrow> 128 word) \<Rightarrow> workbook \<Rightarrow> path \<Rightarrow> pystr \<Rightarrow> path \<Rightarrow> filesystem \<Rightarrow>
   (error + nat \<times> nat \<times> pystr list) \<times> filesystem" where
  "excel_to_kml md5 wb excel_path sheet_name out_path files =
     (if map ascii_lower (path_suffix excel_path) \<notin> {lit ''.xlsx'', lit ''.xlsm''} then
        (Inl (SystemExit (path_name excel_path @ msg_suffix)), files)
      else
        case read_excel wb sheet_name of
          None \<Rightarrow> (Inl ReadError, files)
        | Some df \<Rightarrow>
            (case missing_column (df_columns df) of
               Some col \<Rightarrow> (Inl (SystemExit (path_name excel_path @ msg_column @ col)), files)
             | None \<Rightarrow>
                 (let rows = map (row_of (df_columns df)) (df_rows df);
                      res = apply_valid_row (path_name excel_path) 0 rows [];
                      df_valid = select_rows (fst res) rows;
                      problems = snd res;
                      ds = districts df_valid
                  in case add_rows (style_ids md5 ds) df_valid ([], 0) of
                       Inl e \<Rightarrow> (Inl e, files)
                     | Inr st \<Rightarrow>
                         (let kml = kml_root (path_name out_path) (style_elems md5 ds) (fst st);
                              txt = replace (lit ''><'') (lit ''>'' @ [10] @ lit ''<'') (tostring kml)
                          in (Inr (length rows, snd st, problems),
                              files(path_str out_path \<mapsto> txt))))))"

section \<open>Notions used in the statements\<close>

text \<open>
  The canonical form of a coordinate text, in the words of the specification: all white
  space removed and the decimal comma written as a dot.
\<close>

definition canonical_form :: "pystr \<Rightarrow> pystr" where
  "canonical_form t = map (\<lambda>c. if c = 44 then 46 else c) (filter (\<lambda>c. \<not> isspace c) t)"

text \<open>
  The order of first appearance, and the grouping of a list by a key in that order:
  what the specification says of the folders (created at the first row that needs them,
  never removed, each placemark appended to the folder of its okrug and district).
\<close>

fun first_seen :: "'a list \<Rightarrow> 'a list" where
  "first_seen [] = []"
| "first_seen (x # xs) = x # filter (\<lambda>y. y \<noteq> x) (first_seen xs)"

definition group_by :: "('a \<Rightarrow> 'k) \<Rightarrow> ('a list \<Rightarrow> 'v) \<Rightarrow> 'a list \<Rightarrow> ('k \<times> 'v) list" where
  "group_by key f xs = map (\<lambda>k. (k, f (filter (\<lambda>x. key x = k) xs))) (first_seen (map key xs))"

text \<open>
  The outcome of \<open>valid_row\<close> for one row: whether it accepts the row, and the diagnostics
  it adds. The keys of the folders of a row, its placemark, and the folders, the text of
  the output file and the diagnostics that the statements below compare the code with.
\<close>

definition row_ok :: "row \<Rightarrow> bool" where
  "row_ok r \<longleftrightarrow>
     \<not> (isna (cell_id r) \<or> strip (str_cell (cell_id r)) = []) \<and>
     in_range_lat_lon (lat_num r) (lon_num r)"

definition row_problems :: "pystr \<Rightarrow> nat \<Rightarrow> row \<Rightarrow> pystr list" where
  "row_problems fname idx r = snd (valid_row fname idx r [])"

definition okrug_key :: "row \<Rightarrow> pystr" where
  "okrug_key r = strip (str_cell (cell_okrug r))"

definition rayon_key :: "row \<Rightarrow> pystr" where
  "rayon_key r = strip (str_cell (cell_rayon r))"

definition row_placemark :: "(pystr \<Rightarrow> pystr option) \<Rightarrow> row \<Rightarrow> elem list" where
  "row_placemark sids r =
     (case lat_num r of
        None \<Rightarrow> []
      | Some lat \<Rightarrow> (case lon_num r of None \<Rightarrow> [] | Some lon \<Rightarrow> [placemark sids r lat lon]))"

definition expected_folders :: "(pystr \<Rightarrow> pystr option) \<Rightarrow> row list \<Rightarrow> folders" where
  "expected_folders sids vs =
     group_by okrug_key (group_by rayon_key (\<lambda>rs. concat (map (row_placemark sids) rs))) vs"

definition sheet_rows :: "dataframe \<Rightarrow> row list" where
  "sheet_rows df = map (row_of (df_columns df)) (df_rows df)"

definition kml_text :: "(pystr \<Rightarrow> 128 word) \<Rightarrow> pystr \<Rightarrow> row list \<Rightarrow> pystr" where
  "kml_text md5 out_name vs =
     replace (lit ''><'') (lit ''>'' @ [10] @ lit ''<'')
       (tostring (kml_root out_name (style_elems md5 (districts vs))
          (expected_folders (style_ids md5 (districts vs)) vs)))"

definition all_problems :: "pystr \<Rightarrow> row list \<Rightarrow> pystr list" where
  "all_problems fname rs =
     concat (map (\<lambda>ir. row_problems fname (fst ir) (snd ir)) (zip [0..<length rs] rs))"

text \<open>
  A sheet for the examples: a title row, an empty row, the header in the third row and
  five rows of data, of which the second has no message number and the fourth no
  latitude that parses.
\<close>

definition sample_header :: "cell list" where
  "sample_header = map Text required_cols"

definition sample_sheet :: sheet where
  "sample_sheet =
     [[Text (lit ''Report'')], [], sample_header,
      [Text (lit ''12345''), Text (lit ''West''), Text (lit ''Zed''), Text (lit ''Main St, 1''),
       NA, NA, NA, Text (lit ''http://a/1.jpg ; ; http://a/2.jpg''), Text (lit ''55,7887''),
       Text (lit ''37,6279'')],
      [Text (lit '' ''), Text (lit ''West''), Text (lit ''Zed''), NA, NA, NA, NA, NA,
       Text (lit ''abc''), Text (lit ''37.6279'')],
      [Text (lit ''12347''), Text (lit ''East''), NA, NA, NA, NA, NA, NA,
       Text (lit ''-12.5''), Text (lit ''180'')],
      [Text (lit ''12348''), Text (lit ''West''), Text (lit ''Zed''), NA, NA, NA, NA, NA,
       Text (lit ''abc''), Text (lit ''37,6279'')],
      [Text (lit ''12349''), Text (lit ''West''), Text (lit ''Alpha''), NA, NA, NA, NA, NA,
       Text (lit ''0''), Text (lit ''0'')]]"

definition sample_rows :: "row list" where
  "sample_rows = map (row_of sample_header) (drop 3 sample_sheet)"

definition all_placemarks :: "folders \<Rightarrow> elem list" where
  "all_placemarks fs = concat (map (\<lambda>f. concat (map snd (snd f))) fs)"

definition sample_workbook :: workbook where
  "sample_workbook nm = (if nm = lit ''Sheet1'' then Some sample_sheet else None)"

definition sample_excel :: path where
  "sample_excel = \<lparr>path_str = lit ''reports/r.xlsx'', path_name = lit ''r.xlsx'',
     path_suffix = lit ''.xlsx''\<rparr>"

definition sample_out :: path where
  "sample_out = \<lparr>path_str = lit ''out/r.kml'', path_name = lit ''r.kml'',
     path_suffix = lit ''.kml''\<rparr>"

definition sample_df :: dataframe where
  "sample_df = \<lparr>df_columns = sample_header, df_rows = drop 3 sample_sheet\<rparr>"

definition sample_md5 :: "pystr \<Rightarrow> 128 word" where
  "sample_md5 d = of_nat (sum_list d)"

fun elem_tag :: "elem \<Rightarrow> pystr" where
  "elem_tag (Element tag attrib txt kids) = tag"

fun elem_text :: "elem \<Rightarrow> pystr" where
  "elem_text (Element tag attrib txt kids) = txt"

fun elem_children :: "elem \<Rightarrow> elem list" where
  "elem_children (Element tag attrib txt kids) = kids"

definition find_child :: "string \<Rightarrow> elem \<Rightarrow> elem option" where
  "find_child tag e = find (\<lambda>k. elem_tag k = lit tag) (elem_children e)"

definition point_coordinates :: "elem \<Rightarrow> pystr option" where
  "point_coordinates pm =
     (case find_child ''Point'' pm of
        None \<Rightarrow> None
      | Some p \<Rightarrow> map_option elem_text (find_child ''coordinates'' p))"

definition eight_decimals :: "pystr \<Rightarrow> bool" where
  "eight_decimals s \<longleftrightarrow>
     (let body = (case s of [] \<Rightarrow> [] | c # t \<Rightarrow> if c = 45 then t else s);
          ip = takeWhile is_digit body;
          rest = dropWhile is_digit body
      in ip \<noteq> [] \<and>
         (case rest of [] \<Rightarrow> False | c # fr \<Rightarrow> c = 46 \<and> length fr = 8 \<and> list_all is_digit fr))"

definition sample_bad_sheet :: sheet where
  "sample_bad_sheet =
     [[Text (lit ''Report'')], [],
      [Text col_message_id, Text (col_okrug @ lit '' ''), Text col_rayon, Text col_addr, Text col_obj,
       Text col_topic, Text col_text, Text col_links, Text col_lat, Text col_lon],
      [Text (lit ''12345''), Text (lit ''West''), Text (lit ''Zed''), Text (lit ''Main St, 1''),
       NA, NA, NA, NA, Text (lit ''55,7887''), Text (lit ''37,6279'')]]"

definition folder_placemarks :: "folders \<Rightarrow> pystr \<Rightarrow> pystr \<Rightarrow> elem list" where
  "folder_placemarks fs okrug rayon =
     (case map_of fs okrug of
        None \<Rightarrow> []
      | Some ds \<Rightarrow> (case map_of ds rayon of None \<Rightarrow> [] | Some pms \<Rightarrow> pms))"

text \<open>
  The standard conversion of a hue in degrees, a saturation and a value to red, green and
  blue, as the specification names it: the channel \<open>n\<close> is
  \<open>v - v s max(0, min(k, 4 - k, 1))\<close> with \<open>k = (n + h / 60) mod 6\<close>, which is linear on each of
  the six sectors of 60 degrees, and red, green and blue are the channels 5, 3 and 1.
  \<open>hsv_channels\<close> above is what the script computes.
\<close>

definition hsv_to_rgb :: "rat \<Rightarrow> rat \<Rightarrow> rat \<Rightarrow> rat \<times> rat \<times> rat" where
  "hsv_to_rgb h s v =
     (let f = (\<lambda>n. let k = py_mod (n + h / 60) 6 in v - v * s * max 0 (min (min k (4 - k)) 1))
      in (f 5, f 3, f 1))"

text \<open>The two upper-case hexadecimal digits of a number below 256.\<close>

definition hex_byte :: "nat \<Rightarrow> pystr" where
  "hex_byte n = [hexdigit_upper (n div 16), hexdigit_upper (n mod 16)]"

text \<open>\<^verbatim>\<open>int(s, 16)\<close> of a string of hexadecimal digits.\<close>

definition hex_value :: "nat \<Rightarrow> nat" where
  "hex_value c =
     (if 48 \<le> c \<and> c \<le> 57 then c - 48
      else if 97 \<le> c \<and> c \<le> 102 then c - 87
      else if 65 \<le> c \<and> c \<le> 70 then c - 55
      else 0)"

definition int_of_hex :: "pystr \<Rightarrow> nat" where
  "int_of_hex s = foldl (\<lambda>a c. 16 * a + hex_value c) 0 s"

text \<open>A number that is at least 1/80 away from every integer.\<close>

definition off_integer :: "rat \<Rightarrow> bool" where
  "off_integer q \<longleftrightarrow> 1 / 80 \<le> frac q \<and> frac q \<le> 79 / 80"

section \<open>Evaluation on literals\<close>

lemma str_nat_numeral [simp]:
  "str_nat 0 = [48]"
  "str_nat 1 = [49]"
  "str_nat (numeral k) =
     (if (numeral k :: nat) < 10 then [48 + numeral k]
      else str_nat (numeral k div 10) @ [48 + numeral k mod 10])"
  by (simp_all add: str_nat.simps)

lemma str_nat_Suc [simp]:
  "str_nat (Suc 0) = [49]"
  "str_nat (Suc (Suc 0)) = [50]"
  by (simp_all add: str_nat.simps)

lemma bitlen_numeral [simp]:
  "bitlen 0 = 0"
  "bitlen 1 = 1"
  "bitlen (numeral k) = Suc (bitlen (numeral k div 2))"
  by (simp_all add: bitlen.simps)

lemma hex_upper_numeral [simp]:
  "hex_upper 0 = [48]"
  "hex_upper 1 = [49]"
  "hex_upper (numeral k) =
     (if (numeral k :: nat) < 16 then [hexdigit_upper (numeral k)]
      else hex_upper (numeral k div 16) @ [hexdigit_upper (numeral k mod 16)])"
  by (simp_all add: hex_upper.simps hexdigit_upper_def)

lemma replicate_numeral [simp]:
  "replicate (numeral k) x = x # replicate (pred_numeral k) x"
  by (simp add: numeral_eq_Suc)

lemmas str_eval = lit_def isspace_def strip_def escape_char_def html_escape_def ascii_lower_def

lemmas col_defs = required_cols_def col_message_id_def col_okrug_def col_rayon_def col_addr_def
  col_obj_def col_topic_def col_text_def col_links_def col_lat_def col_lon_def

lemmas float_eval = rne_div_def floor_log2_def binary64_def decimal64_def is_digit_def
  digit_zeros_def digit_value_def is_decimal_def
  digitpart_char_def digits_val_def py_exponent_def py_number_def float_space_def float_strip_def
  py_float_def pad_zeros_def normalize_number_def Let_def

section \<open>The coordinate normaliser\<close>

lemma replace_char_delete: "replace [c] [] s = filter (\<lambda>x. x \<noteq> c) s"
  by (induction s) auto

lemma replace_char_char: "replace [c] [d] s = map (\<lambda>x. if x = c then d else x) s"
  by (induction s) auto

lemma filter_dropWhile_not: "filter (\<lambda>x. \<not> P x) (dropWhile P xs) = filter (\<lambda>x. \<not> P x) xs"
  by (induction xs) auto

lemma filter_strip: "filter (\<lambda>c. \<not> isspace c) (strip s) = filter (\<lambda>c. \<not> isspace c) s"
  by (simp add: strip_def filter_dropWhile_not flip: rev_filter)

lemma dropWhile_none: "\<forall>c \<in> set xs. \<not> P c \<Longrightarrow> dropWhile P xs = xs"
  by (cases xs) auto

lemma strip_no_space: "\<forall>c \<in> set s. \<not> isspace c \<Longrightarrow> strip s = s"
  by (simp add: strip_def dropWhile_none)

lemma normalize_number_eq:
  "normalize_number s = map (\<lambda>x. if x = 44 then 46 else x) (filter (\<lambda>x. x \<noteq> 32) (strip s))"
  by (simp add: normalize_number_def lit_def replace_char_delete replace_char_char)

lemma isspace_32: "isspace 32"
  by (simp add: isspace_def)

lemma not_isspace_dot: "\<not> isspace 46" "\<not> isspace 44"
  by (simp_all add: isspace_def)

lemma normalize_number_canonical:
  assumes "\<forall>c \<in> set (strip t). isspace c \<longrightarrow> c = 32"
  shows "normalize_number t = canonical_form t"
proof -
  have "filter (\<lambda>x. x \<noteq> 32) (strip t) = filter (\<lambda>c. \<not> isspace c) (strip t)"
    using assms isspace_32 by (intro filter_cong) auto
  then show ?thesis
    by (simp add: normalize_number_eq canonical_form_def filter_strip)
qed

lemma canonical_form_no_space: "\<forall>c \<in> set (canonical_form t). \<not> isspace c"
  using not_isspace_dot by (auto simp: canonical_form_def)

lemma canonical_form_idem: "canonical_form (canonical_form t) = canonical_form t"
proof -
  have "filter (\<lambda>c. \<not> isspace c) (canonical_form t) = canonical_form t"
    using canonical_form_no_space by (simp add: filter_id_conv)
  then have "canonical_form (canonical_form t) = map (\<lambda>c. if c = 44 then 46 else c) (canonical_form t)"
    by (simp add: canonical_form_def)
  also have "\<dots> = canonical_form t"
    by (simp add: canonical_form_def)
  finally show ?thesis .
qed

text \<open>
  Claim C3, as the code has it. For a coordinate text whose white space inside the
  value is made of spaces (U+0020) only, whatever white space surrounds it,
  \<open>ensure_float\<close> returns what it returns for the canonical form of the text (no white
  space, a dot for the comma); for a missing cell it returns \<open>None\<close>, and for a text it
  returns what \<open>float\<close> makes of the normalised text, \<open>None\<close> when that does not parse.
\<close>

theorem ensure_float_canonical:
  assumes "\<forall>c \<in> set (strip t). isspace c \<longrightarrow> c = 32"
  shows "ensure_float (Text t) = ensure_float (Text (canonical_form t)) \<and>
         ensure_float (Text t) = py_float (canonical_form t) \<and>
         ensure_float NA = None"
proof -
  have "\<forall>c \<in> set (strip (canonical_form t)). isspace c \<longrightarrow> c = 32"
    using canonical_form_no_space by (simp add: strip_no_space)
  then have "normalize_number (canonical_form t) = canonical_form t"
    by (simp add: normalize_number_canonical canonical_form_idem)
  with assms show ?thesis
    by (simp add: normalize_number_canonical)
qed

theorem ensure_float_canonical_witness:
  "strip (lit ''  5 5 , 7 887 '') = lit ''5 5 , 7 887'' \<and>
   canonical_form (lit ''  5 5 , 7 887 '') = lit ''55.7887'' \<and>
   ensure_float (Text (lit ''  5 5 , 7 887 '')) = ensure_float (Text (lit ''55.7887'')) \<and>
   ensure_float (Text (lit ''55.7887'')) = Some (Finite False 7851561516608887 (- 47))"
proof -
  have h: "\<forall>c \<in> set (strip (lit ''  5 5 , 7 887 '')). isspace c \<longrightarrow> c = 32"
    by (simp add: str_eval)
  have c: "canonical_form (lit ''  5 5 , 7 887 '') = lit ''55.7887''"
    by (simp add: canonical_form_def str_eval)
  have v: "ensure_float (Text (lit ''55.7887'')) = Some (Finite False 7851561516608887 (- 47))"
    by (simp add: str_eval float_eval)
  have s: "strip (lit ''  5 5 , 7 887 '') = lit ''5 5 , 7 887''"
    by (simp add: str_eval)
  from ensure_float_canonical [OF h] s c v show ?thesis
    by simp
qed

text \<open>
  Claim C3, as the specification states it, fails: a tab inside the value is white
  space that the normaliser leaves in place, and \<open>float\<close> then rejects the text, while
  the canonical form of the same text parses.
\<close>

theorem ensure_float_interior_tab:
  "canonical_form (lit ''55'' @ [9] @ lit '',7887'') = lit ''55.7887'' \<and>
   ensure_float (Text (lit ''55.7887'')) = Some (Finite False 7851561516608887 (- 47)) \<and>
   ensure_float (Text (lit ''55'' @ [9] @ lit '',7887'')) = None"
  by (simp add: canonical_form_def str_eval float_eval)

section \<open>The sample rows\<close>

lemma sample_rows_eq:
  "sample_rows =
     [\<lparr>cell_id = Text (lit ''12345''), cell_okrug = Text (lit ''West''),
       cell_rayon = Text (lit ''Zed''), cell_addr = Text (lit ''Main St, 1''), cell_obj = NA,
       cell_topic = NA, cell_text = NA,
       cell_links = Text (lit ''http://a/1.jpg ; ; http://a/2.jpg''),
       cell_lat = Text (lit ''55,7887''), cell_lon = Text (lit ''37,6279''),
       lat_num = Some (Finite False 7851561516608887 (- 47)),
       lon_num = Some (Finite False 5295656138085446 (- 47))\<rparr>,
      \<lparr>cell_id = Text (lit '' ''), cell_okrug = Text (lit ''West''),
       cell_rayon = Text (lit ''Zed''), cell_addr = NA, cell_obj = NA, cell_topic = NA,
       cell_text = NA, cell_links = NA, cell_lat = Text (lit ''abc''),
       cell_lon = Text (lit ''37.6279''), lat_num = None,
       lon_num = Some (Finite False 5295656138085446 (- 47))\<rparr>,
      \<lparr>cell_id = Text (lit ''12347''), cell_okrug = Text (lit ''East''), cell_rayon = NA,
       cell_addr = NA, cell_obj = NA, cell_topic = NA, cell_text = NA, cell_links = NA,
       cell_lat = Text (lit ''-12.5''), cell_lon = Text (lit ''180''),
       lat_num = Some (Finite True 7036874417766400 (- 49)),
       lon_num = Some (Finite False 6333186975989760 (- 45))\<rparr>,
      \<lparr>cell_id = Text (lit ''12348''), cell_okrug = Text (lit ''West''),
       cell_rayon = Text (lit ''Zed''), cell_addr = NA, cell_obj = NA, cell_topic = NA,
       cell_text = NA, cell_links = NA, cell_lat = Text (lit ''abc''),
       cell_lon = Text (lit ''37,6279''), lat_num = None,
       lon_num = Some (Finite False 5295656138085446 (- 47))\<rparr>,
      \<lparr>cell_id = Text (lit ''12349''), cell_okrug = Text (lit ''West''),
       cell_rayon = Text (lit ''Alpha''), cell_addr = NA, cell_obj = NA, cell_topic = NA,
       cell_text = NA, cell_links = NA, cell_lat = Text (lit ''0''), cell_lon = Text (lit ''0''),
       lat_num = Some (Finite False 0 0), lon_num = Some (Finite False 0 0)\<rparr>]"
  by (simp add: sample_rows_def row_of_def cell_of_def sample_sheet_def sample_header_def col_defs
      str_eval float_eval)

section \<open>The row validator\<close>

text \<open>
  Claim C4. \<open>valid_row\<close> checks the message number first: when it is missing or blank
  the row is rejected with the diagnostic of the empty number, whatever the coordinates
  are. Otherwise coordinates that are absent or out of range reject the row with the
  diagnostic of the coordinates, and any other row is accepted with no diagnostic. A
  rejected row adds exactly one diagnostic to the list, and the diagnostic is the name
  of the file, the reason, and the position of the row counted from 1 (then, for the
  coordinates, the two raw cells).
\<close>

theorem valid_row_first_failure:
  "(isna (cell_id r) \<or> strip (str_cell (cell_id r)) = [] \<longrightarrow>
      valid_row fname idx r ps = (False, ps @ [fname @ msg_empty @ str_nat (idx + 1)])) \<and>
   (\<not> (isna (cell_id r) \<or> strip (str_cell (cell_id r)) = []) \<and>
    \<not> in_range_lat_lon (lat_num r) (lon_num r) \<longrightarrow>
      valid_row fname idx r ps =
        (False, ps @ [fname @ msg_coords @ str_nat (idx + 1) @ lit '': lat='' @
           str_cell (cell_lat r) @ lit '', lon='' @ str_cell (cell_lon r)])) \<and>
   (\<not> (isna (cell_id r) \<or> strip (str_cell (cell_id r)) = []) \<and>
    in_range_lat_lon (lat_num r) (lon_num r) \<longrightarrow>
      valid_row fname idx r ps = (True, ps)) \<and>
   length (snd (valid_row fname idx r ps)) =
     length ps + (if fst (valid_row fname idx r ps) then 0 else 1)"
  by (simp add: valid_row_def)

theorem valid_row_first_failure_witness:
  "valid_row (lit ''r.xlsx'') 1 (sample_rows ! 1) [] =
     (False, [lit ''r.xlsx'' @ msg_empty @ lit ''2'']) \<and>
   valid_row (lit ''r.xlsx'') 3 (sample_rows ! 3) [] =
     (False, [lit ''r.xlsx'' @ msg_coords @ lit ''4: lat=abc, lon=37,6279'']) \<and>
   valid_row (lit ''r.xlsx'') 0 (sample_rows ! 0) [] = (True, [])"
  using valid_row_first_failure [of "sample_rows ! 1" "lit ''r.xlsx''" 1 "[]"]
    valid_row_first_failure [of "sample_rows ! 3" "lit ''r.xlsx''" 3 "[]"]
    valid_row_first_failure [of "sample_rows ! 0" "lit ''r.xlsx''" 0 "[]"]
  unfolding sample_rows_eq
  by (simp add: str_eval)

section \<open>The conversion in closed form\<close>

lemma set_first_seen [simp]: "set (first_seen xs) = set xs"
  by (induction xs) auto

lemma distinct_first_seen [simp]: "distinct (first_seen xs)"
  by (induction xs) auto

lemma first_seen_snoc:
  "first_seen (xs @ [x]) = (if x \<in> set xs then first_seen xs else first_seen xs @ [x])"
  by (induction xs) auto

lemma keys_group_by [simp]: "map fst (group_by key f xs) = first_seen (map key xs)"
  by (simp add: group_by_def comp_def)

lemma group_by_Nil [simp]: "group_by key f [] = []"
  by (simp add: group_by_def)

lemma update_entry_comp:
  "update_entry k g (update_entry k h kvs) = update_entry k (\<lambda>v. g (h v)) kvs"
  by (induction kvs) (auto simp: update_entry_def)

lemma update_entry_cong:
  "(\<And>v. (k, v) \<in> set kvs \<Longrightarrow> g v = h v) \<Longrightarrow> update_entry k g kvs = update_entry k h kvs"
  by (induction kvs) (auto simp: update_entry_def)

lemma update_entry_absent:
  "k \<notin> set (map fst kvs) \<Longrightarrow> update_entry k g kvs = kvs"
  by (induction kvs) (auto simp: update_entry_def)

lemma update_entry_append:
  "update_entry k g (xs @ ys) = update_entry k g xs @ update_entry k g ys"
  by (simp add: update_entry_def)

lemma upsert_group_by:
  assumes "\<And>ys. g (f ys) = f (ys @ [x])" and i: "f [] = init"
  shows "update_entry (key x) g
           (if key x \<in> set (map fst (group_by key f xs)) then group_by key f xs
            else group_by key f xs @ [(key x, init)]) =
         group_by key f (xs @ [x])"
proof (cases "key x \<in> key ` set xs")
  case True
  then show ?thesis
    using assms(1) by (auto simp: group_by_def first_seen_snoc update_entry_def)
next
  case False
  then have e: "filter (\<lambda>y. key y = key x) xs = []"
    by (auto simp: filter_empty_conv image_iff)
  from False have u: "update_entry (key x) g (group_by key f xs) = group_by key f xs"
    by (intro update_entry_absent) simp
  have l: "update_entry (key x) g (group_by key f xs @ [(key x, init)]) =
        group_by key f xs @ [(key x, f [x])]"
    using u assms(1) [of "[]"] i by (simp add: update_entry_append) (simp add: update_entry_def)
  have r: "group_by key f (xs @ [x]) = group_by key f xs @ [(key x, f [x])]"
  proof -
    have "map (\<lambda>k. (k, f (filter (\<lambda>y. key y = k) (xs @ [x])))) (first_seen (map key xs)) =
          map (\<lambda>k. (k, f (filter (\<lambda>y. key y = k) xs))) (first_seen (map key xs))"
      using False by (intro map_cong) (auto simp: image_iff)
    then show ?thesis
      using False e by (simp add: group_by_def first_seen_snoc)
  qed
  from False l r show ?thesis
    by simp
qed

lemma step_as_upsert:
  assumes "distinct (map fst fs)"
  shows "append_placemark okr ray pm (get_pair_folder okr ray fs) =
         update_entry okr
           (\<lambda>ds. update_entry ray (\<lambda>pms. pms @ [pm])
                   (if ray \<in> set (map fst ds) then ds else ds @ [(ray, [])]))
           (if okr \<in> set (map fst fs) then fs else fs @ [(okr, [])])"
proof (cases "in_folder_map okr ray fs")
  case True
  then obtain ds where ds: "map_of fs okr = Some ds" "ray \<in> set (map fst ds)"
    by (auto simp: in_folder_map_def split: option.splits)
  then have m: "okr \<in> set (map fst fs)"
    by (metis map_of_eq_None_iff option.distinct(1) set_map)
  have "\<And>v. (okr, v) \<in> set fs \<Longrightarrow> v = ds"
    using assms ds(1) by (metis map_of_is_SomeI option.inject)
  then have "update_entry okr (update_entry ray (\<lambda>pms. pms @ [pm])) fs =
        update_entry okr
           (\<lambda>ds. update_entry ray (\<lambda>pms. pms @ [pm])
                   (if ray \<in> set (map fst ds) then ds else ds @ [(ray, [])])) fs"
    using ds(2) by (intro update_entry_cong) simp
  then show ?thesis
    using True m by (simp add: get_pair_folder_def append_placemark_def)
next
  case False
  have k: "\<And>v. (okr, v) \<in> set (get_okrug_folder okr fs) \<Longrightarrow> ray \<notin> set (map fst v)"
  proof -
    fix v assume v: "(okr, v) \<in> set (get_okrug_folder okr fs)"
    show "ray \<notin> set (map fst v)"
    proof (cases "okr \<in> set (map fst fs)")
      case True
      with v have "(okr, v) \<in> set fs" by (simp add: get_okrug_folder_def)
      with assms have "map_of fs okr = Some v" by simp
      with False show ?thesis by (simp add: in_folder_map_def)
    next
      case False
      with v have "v = []" by (auto simp: get_okrug_folder_def rev_image_eqI)
      then show ?thesis by simp
    qed
  qed
  have "append_placemark okr ray pm (get_pair_folder okr ray fs) =
        update_entry okr (\<lambda>ds. update_entry ray (\<lambda>pms. pms @ [pm]) (ds @ [(ray, [])]))
          (get_okrug_folder okr fs)"
    using False by (simp add: get_pair_folder_def append_placemark_def update_entry_comp)
  also have "\<dots> = update_entry okr
           (\<lambda>ds. update_entry ray (\<lambda>pms. pms @ [pm])
                   (if ray \<in> set (map fst ds) then ds else ds @ [(ray, [])]))
           (get_okrug_folder okr fs)"
    using k by (intro update_entry_cong) auto
  finally show ?thesis
    by (simp add: get_okrug_folder_def)
qed

lemma valid_row_fst: "fst (valid_row fname idx r ps) = row_ok r"
  by (simp add: valid_row_def row_ok_def)

lemma valid_row_snd: "snd (valid_row fname idx r ps) = ps @ row_problems fname idx r"
  by (simp add: valid_row_def row_problems_def)

lemma apply_valid_row_eq:
  "apply_valid_row fname idx rs ps =
     (map row_ok rs,
      ps @ concat (map (\<lambda>ir. row_problems fname (fst ir) (snd ir)) (zip [idx..<idx + length rs] rs)))"
proof (induction rs arbitrary: idx ps)
  case Nil
  then show ?case by simp
next
  case (Cons r rs)
  have "[idx..<idx + length (r # rs)] = idx # [Suc idx..<Suc idx + length rs]"
    by (simp add: upt_rec)
  then show ?case
    by (simp add: Cons.IH valid_row_fst valid_row_snd Let_def)
qed

lemma select_rows_eq: "select_rows (map row_ok rs) rs = filter row_ok rs"
  by (induction rs) (auto simp: select_rows_def)

lemma row_ok_nums: "row_ok r \<Longrightarrow> \<exists>lat lon. lat_num r = Some lat \<and> lon_num r = Some lon"
  by (cases "lat_num r"; cases "lon_num r") (auto simp: row_ok_def)

lemma add_rows_snoc:
  "add_rows sids (rs @ [r]) st =
     (case add_rows sids rs st of Inl e \<Rightarrow> Inl e | Inr st' \<Rightarrow> add_row sids r st')"
  by (induction rs arbitrary: st) (auto split: sum.splits)

lemma distinct_expected_folders: "distinct (map fst (expected_folders sids vs))"
  by (simp add: expected_folders_def)

lemma add_row_expected:
  assumes "row_ok r"
  shows "add_row sids r (expected_folders sids vs, n) = Inr (expected_folders sids (vs @ [r]), Suc n)"
proof -
  from assms obtain lat lon where n: "lat_num r = Some lat" "lon_num r = Some lon"
    using row_ok_nums by blast
  let ?pm = "placemark sids r lat lon"
  let ?F = "\<lambda>rs. concat (map (row_placemark sids) rs)"
  have p: "row_placemark sids r = [?pm]"
    by (simp add: row_placemark_def n)
  have inner: "update_entry (rayon_key r) (\<lambda>pms. pms @ [?pm])
          (if rayon_key r \<in> set (map fst (group_by rayon_key ?F ys)) then group_by rayon_key ?F ys
           else group_by rayon_key ?F ys @ [(rayon_key r, [])]) =
        group_by rayon_key ?F (ys @ [r])" for ys
    by (rule upsert_group_by [where f = ?F]) (simp_all add: p)
  have outer: "update_entry (okrug_key r)
          (\<lambda>ds. update_entry (rayon_key r) (\<lambda>pms. pms @ [?pm])
                  (if rayon_key r \<in> set (map fst ds) then ds else ds @ [(rayon_key r, [])]))
          (if okrug_key r \<in> set (map fst (expected_folders sids vs)) then expected_folders sids vs
           else expected_folders sids vs @ [(okrug_key r, [])]) =
        expected_folders sids (vs @ [r])"
    unfolding expected_folders_def
    by (rule upsert_group_by [where f = "group_by rayon_key ?F"], rule inner, simp)
  show ?thesis
    using step_as_upsert [OF distinct_expected_folders, of "okrug_key r" "rayon_key r" ?pm sids vs] outer
    by (simp add: add_row_def n okrug_key_def rayon_key_def Let_def)
qed

lemma add_rows_expected:
  "\<forall>r \<in> set vs. row_ok r \<Longrightarrow>
   add_rows sids vs ([], 0) = Inr (expected_folders sids vs, length vs)"
proof (induction vs rule: rev_induct)
  case Nil
  then show ?case by (simp add: expected_folders_def)
next
  case (snoc r vs)
  then show ?case
    by (simp add: add_rows_snoc add_row_expected)
qed

lemma excel_to_kml_success:
  assumes "map ascii_lower (path_suffix excel_path) \<in> {lit ''.xlsx'', lit ''.xlsm''}"
    and "read_excel wb sheet_name = Some df"
    and "missing_column (df_columns df) = None"
  shows "excel_to_kml md5 wb excel_path sheet_name out_path files =
     (Inr (length (sheet_rows df), length (filter row_ok (sheet_rows df)),
           all_problems (path_name excel_path) (sheet_rows df)),
      files(path_str out_path \<mapsto>
        kml_text md5 (path_name out_path) (filter row_ok (sheet_rows df))))"
proof -
  have "add_rows (style_ids md5 (districts (filter row_ok (sheet_rows df))))
          (filter row_ok (sheet_rows df)) ([], 0) =
        Inr (expected_folders (style_ids md5 (districts (filter row_ok (sheet_rows df))))
               (filter row_ok (sheet_rows df)), length (filter row_ok (sheet_rows df)))"
    by (intro add_rows_expected) simp
  with assms show ?thesis
    unfolding excel_to_kml_def
    by (simp add: apply_valid_row_eq select_rows_eq sheet_rows_def [symmetric] Let_def
        kml_text_def all_problems_def)
qed

section \<open>Every row is accounted for\<close>

lemma mset_groups_filter:
  "distinct ks \<Longrightarrow>
   (\<Sum>k\<leftarrow>ks. mset (concat (map h (filter (\<lambda>x. key x = k) xs)))) =
   mset (concat (map h (filter (\<lambda>x. key x \<in> set ks) xs)))"
proof (induction ks)
  case Nil
  then show ?case by simp
next
  case (Cons k ks)
  have "mset (concat (map h (filter (\<lambda>x. key x = k) xs))) +
        mset (concat (map h (filter (\<lambda>x. key x \<in> set ks) xs))) =
        mset (concat (map h (filter (\<lambda>x. key x = k \<or> key x \<in> set ks) xs)))"
    using Cons.prems by (induction xs) auto
  with Cons show ?case by simp
qed

lemma mset_group_by:
  "(\<Sum>kv\<leftarrow>group_by key (\<lambda>rs. concat (map h rs)) xs. mset (snd kv)) = mset (concat (map h xs))"
proof -
  have "filter (\<lambda>x. key x \<in> set (first_seen (map key xs))) xs = xs"
    by (simp add: filter_id_conv)
  then show ?thesis
    using mset_groups_filter [of "first_seen (map key xs)" h key xs]
    by (simp add: group_by_def comp_def)
qed

lemma mset_all_placemarks:
  "mset (all_placemarks (expected_folders sids vs)) = mset (concat (map (row_placemark sids) vs))"
proof -
  let ?F = "\<lambda>rs. concat (map (row_placemark sids) rs)"
  have inner: "(\<Sum>x\<leftarrow>group_by rayon_key ?F ys. mset (snd x)) =
        (\<Sum>x\<leftarrow>ys. mset (row_placemark sids x))" for ys
    using mset_group_by [of rayon_key "row_placemark sids" ys] by (simp add: mset_concat comp_def)
  have "mset (all_placemarks (expected_folders sids vs)) =
        (\<Sum>k\<leftarrow>first_seen (map okrug_key vs). mset (?F (filter (\<lambda>x. okrug_key x = k) vs)))"
    by (simp add: all_placemarks_def expected_folders_def mset_concat comp_def inner
        group_by_def [of okrug_key])
  also have "\<dots> = mset (?F (filter (\<lambda>x. okrug_key x \<in> set (first_seen (map okrug_key vs))) vs))"
    by (rule mset_groups_filter) simp
  also have "filter (\<lambda>x. okrug_key x \<in> set (first_seen (map okrug_key vs))) vs = vs"
    by (simp add: filter_id_conv)
  finally show ?thesis .
qed

lemma row_ok_placemark: "row_ok r \<Longrightarrow> length (row_placemark sids r) = 1"
  using row_ok_nums [of r] by (auto simp: row_placemark_def)

lemma row_problems_cases:
  "row_ok r \<Longrightarrow> row_problems fname idx r = []"
  "\<not> row_ok r \<Longrightarrow> length (row_problems fname idx r) = 1"
  by (auto simp: row_problems_def valid_row_def row_ok_def)

lemma length_all_problems:
  "length (all_problems fname rs) = length (filter (\<lambda>r. \<not> row_ok r) rs)"
proof -
  have "length (concat (map (\<lambda>ir. row_problems fname (fst ir) (snd ir)) (zip is rs))) =
        length (filter (\<lambda>r. \<not> row_ok r) rs)" if "length is = length rs" for "is"
    using that
  proof (induction "is" rs rule: list_induct2)
    case Nil
    then show ?case by simp
  next
    case (Cons i "is" r rs)
    then show ?case
      by (cases "row_ok r") (simp_all add: row_problems_cases)
  qed
  then show ?thesis by (simp add: all_problems_def)
qed

text \<open>
  Claim C9. When the file passes the checks of its suffix and of its columns, the
  conversion succeeds and returns the number of rows of the sheet, the number of
  placemarks written and the diagnostics. Every row is either accepted, and then it has
  no diagnostic and one placemark, or rejected, and then it has one diagnostic and no
  placemark is made for it; the placemarks of the document are, as a multiset, those of
  the accepted rows, the diagnostics are those of the rows in the order of the rows,
  and the number of rows is the sum of the two counts.
\<close>

theorem every_row_accounted:
  assumes "map ascii_lower (path_suffix excel_path) \<in> {lit ''.xlsx'', lit ''.xlsm''}"
    and "read_excel wb sheet_name = Some df"
    and "missing_column (df_columns df) = None"
  shows "\<exists>written problems fs styles.
     excel_to_kml md5 wb excel_path sheet_name out_path files =
       (Inr (length (sheet_rows df), written, problems),
        files(path_str out_path \<mapsto>
          replace (lit ''><'') (lit ''>'' @ [10] @ lit ''<'')
            (tostring (kml_root (path_name out_path) styles fs)))) \<and>
     length (sheet_rows df) = written + length problems \<and>
     problems =
       concat (map (\<lambda>ir. row_problems (path_name excel_path) (fst ir) (snd ir))
         (zip [0..<length (sheet_rows df)] (sheet_rows df))) \<and>
     mset (all_placemarks fs) =
       mset (concat (map (row_placemark (style_ids md5 (districts (filter row_ok (sheet_rows df)))))
         (filter row_ok (sheet_rows df)))) \<and>
     written = length (all_placemarks fs) \<and>
     list_all (\<lambda>ir.
        if row_ok (snd ir)
        then row_problems (path_name excel_path) (fst ir) (snd ir) = [] \<and>
             length (row_placemark (style_ids md5 (districts (filter row_ok (sheet_rows df)))) (snd ir)) = 1
        else length (row_problems (path_name excel_path) (fst ir) (snd ir)) = 1)
       (zip [0..<length (sheet_rows df)] (sheet_rows df))"
proof -
  let ?rows = "sheet_rows df"
  let ?vs = "filter row_ok ?rows"
  let ?sids = "style_ids md5 (districts ?vs)"
  have l: "length ?rows = length ?vs + length (all_problems (path_name excel_path) ?rows)"
    by (simp add: length_all_problems sum_length_filter_compl)
  have w: "length ?vs = length (all_placemarks (expected_folders ?sids ?vs))"
  proof -
    have "size (mset (all_placemarks (expected_folders ?sids ?vs))) =
          size (mset (concat (map (row_placemark ?sids) ?vs)))"
      by (simp only: mset_all_placemarks)
    moreover have "length (concat (map (row_placemark ?sids) vs)) = length vs"
      if "\<forall>r \<in> set vs. row_ok r" for vs
      using that by (induction vs) (simp_all add: row_ok_placemark)
    ultimately show ?thesis by simp
  qed
  have p: "list_all (\<lambda>ir.
        if row_ok (snd ir)
        then row_problems (path_name excel_path) (fst ir) (snd ir) = [] \<and>
             length (row_placemark ?sids (snd ir)) = 1
        else length (row_problems (path_name excel_path) (fst ir) (snd ir)) = 1)
       (zip [0..<length ?rows] ?rows)"
    by (simp add: list_all_iff row_problems_cases row_ok_placemark)
  have e: "excel_to_kml md5 wb excel_path sheet_name out_path files =
       (Inr (length ?rows, length ?vs, all_problems (path_name excel_path) ?rows),
        files(path_str out_path \<mapsto>
          replace (lit ''><'') (lit ''>'' @ [10] @ lit ''<'')
            (tostring (kml_root (path_name out_path) (style_elems md5 (districts ?vs))
               (expected_folders ?sids ?vs)))))"
    using excel_to_kml_success [OF assms, of md5 out_path files] by (simp add: kml_text_def)
  show ?thesis
    apply (rule exI [of _ "length ?vs"])
    apply (rule exI [of _ "all_problems (path_name excel_path) ?rows"])
    apply (rule exI [of _ "expected_folders ?sids ?vs"])
    apply (rule exI [of _ "style_elems md5 (districts ?vs)"])
    apply (intro conjI)
         apply (rule e)
        apply (rule l)
       apply (simp add: all_problems_def)
      apply (rule mset_all_placemarks)
     apply (rule w)
    apply (rule p)
    done
qed

lemma sample_suffix:
  "map ascii_lower (path_suffix sample_excel) \<in> {lit ''.xlsx'', lit ''.xlsm''}"
  by (simp add: sample_excel_def str_eval)

lemma sample_read: "read_excel sample_workbook (lit ''Sheet1'') = Some sample_df"
  by (simp add: read_excel_def sample_workbook_def sample_df_def sample_sheet_def)

lemma sample_columns: "missing_column (df_columns sample_df) = None"
  by (simp add: missing_column_def sample_df_def sample_header_def find_None_iff)

lemma sample_sheet_rows: "sheet_rows sample_df = sample_rows"
  by (simp add: sheet_rows_def sample_df_def sample_rows_def)

lemma sample_row_ok: "map row_ok sample_rows = [True, False, True, False, True]"
  unfolding sample_rows_eq by (simp add: row_ok_def str_eval)

lemma str_nat_small: "n < 10 \<Longrightarrow> str_nat n = [48 + n]"
  by (simp add: str_nat.simps)

lemma sample_problems:
  "all_problems (lit ''r.xlsx'') sample_rows =
     [lit ''r.xlsx'' @ msg_empty @ lit ''2'',
      lit ''r.xlsx'' @ msg_coords @ lit ''4: lat=abc, lon=37,6279'']"
  unfolding sample_rows_eq all_problems_def
  by (simp add: row_problems_def valid_row_def str_eval str_nat_small)

theorem every_row_accounted_witness:
  "fst (excel_to_kml sample_md5 sample_workbook sample_excel (lit ''Sheet1'') sample_out Map.empty) =
     Inr (5, 3, [lit ''r.xlsx'' @ msg_empty @ lit ''2'',
                 lit ''r.xlsx'' @ msg_coords @ lit ''4: lat=abc, lon=37,6279''])"
proof -
  from every_row_accounted [OF sample_suffix sample_read sample_columns, of sample_md5 sample_out Map.empty]
  obtain written problems fs styles where
    e: "excel_to_kml sample_md5 sample_workbook sample_excel (lit ''Sheet1'') sample_out Map.empty =
       (Inr (length (sheet_rows sample_df), written, problems),
        Map.empty(path_str sample_out \<mapsto>
          replace (lit ''><'') (lit ''>'' @ [10] @ lit ''<'')
            (tostring (kml_root (path_name sample_out) styles fs))))"
    and l: "length (sheet_rows sample_df) = written + length problems"
    and p: "problems =
       concat (map (\<lambda>ir. row_problems (path_name sample_excel) (fst ir) (snd ir))
         (zip [0..<length (sheet_rows sample_df)] (sheet_rows sample_df)))"
    by blast
  have n: "path_name sample_excel = lit ''r.xlsx''"
    by (simp add: sample_excel_def)
  have "problems = all_problems (lit ''r.xlsx'') sample_rows"
    using p by (simp add: all_problems_def sample_sheet_rows n)
  then have p': "problems = [lit ''r.xlsx'' @ msg_empty @ lit ''2'',
      lit ''r.xlsx'' @ msg_coords @ lit ''4: lat=abc, lon=37,6279'']"
    by (simp only: sample_problems)
  have "length sample_rows = 5"
    by (simp add: sample_rows_def sample_sheet_def)
  with l p' have "written = 3"
    by (simp add: sample_sheet_rows)
  with e p' \<open>length sample_rows = 5\<close> show ?thesis
    by (simp add: sample_sheet_rows)
qed

section \<open>The order of styles and folders\<close>

lemma districts_props:
  "sorted (districts vs)" "distinct (districts vs)"
  "set (districts vs) = {d. \<exists>r \<in> set vs. cell_rayon r = Text d}"
  by (auto simp: districts_def split: cell.splits)

lemma expected_folders_keys:
  "map fst (expected_folders sids vs) = first_seen (map okrug_key vs)"
  by (simp add: expected_folders_def)

lemma expected_folders_subkeys:
  "list_all (\<lambda>f. map fst (snd f) =
       first_seen (map rayon_key (filter (\<lambda>r. okrug_key r = fst f) vs)))
     (expected_folders sids vs)"
  by (simp add: expected_folders_def list_all_iff group_by_def [of okrug_key]) 

text \<open>
  Claim C6. In the document written for a file, the children of the Document element are
  its name, then one Style for each distinct district cell of the accepted rows that is
  not missing, in sorted order (the order of Python's strings), then the okrug folders
  in the order in which the accepted rows first name them; the district folders of an
  okrug folder are in the order in which the accepted rows of that okrug first name
  them.
\<close>

theorem styles_sorted_folders_first_seen:
  assumes "map ascii_lower (path_suffix excel_path) \<in> {lit ''.xlsx'', lit ''.xlsm''}"
    and "read_excel wb sheet_name = Some df"
    and "missing_column (df_columns df) = None"
  shows "\<exists>fs.
     snd (excel_to_kml md5 wb excel_path sheet_name out_path files) (path_str out_path) =
       Some (replace (lit ''><'') (lit ''>'' @ [10] @ lit ''<'')
         (tostring
            (Element (lit ''kml'') [(lit ''xmlns'', lit ''http://www.opengis.net/kml/2.2'')] []
               [Element (lit ''Document'') [] []
                  (leaf ''name'' (path_name out_path) #
                   map (\<lambda>d. create_style (style_id md5 d) (kml_color_from_district md5 d))
                     (districts (filter row_ok (sheet_rows df))) @
                   map (\<lambda>f. folder_elem (fst f) (map (\<lambda>d. folder_elem (fst d) (snd d)) (snd f))) fs)]))) \<and>
     sorted (districts (filter row_ok (sheet_rows df))) \<and>
     distinct (districts (filter row_ok (sheet_rows df))) \<and>
     set (districts (filter row_ok (sheet_rows df))) =
       {d. \<exists>r \<in> set (filter row_ok (sheet_rows df)). cell_rayon r = Text d} \<and>
     map fst fs = first_seen (map okrug_key (filter row_ok (sheet_rows df))) \<and>
     list_all (\<lambda>f. map fst (snd f) =
         first_seen (map rayon_key (filter (\<lambda>r. okrug_key r = fst f) (filter row_ok (sheet_rows df)))))
       fs"
proof -
  let ?vs = "filter row_ok (sheet_rows df)"
  let ?fs = "expected_folders (style_ids md5 (districts ?vs)) ?vs"
  have "snd (excel_to_kml md5 wb excel_path sheet_name out_path files) (path_str out_path) =
       Some (kml_text md5 (path_name out_path) ?vs)"
    using excel_to_kml_success [OF assms, of md5 out_path files] by simp
  then have "snd (excel_to_kml md5 wb excel_path sheet_name out_path files) (path_str out_path) =
       Some (replace (lit ''><'') (lit ''>'' @ [10] @ lit ''<'')
         (tostring
            (Element (lit ''kml'') [(lit ''xmlns'', lit ''http://www.opengis.net/kml/2.2'')] []
               [Element (lit ''Document'') [] []
                  (leaf ''name'' (path_name out_path) #
                   map (\<lambda>d. create_style (style_id md5 d) (kml_color_from_district md5 d))
                     (districts ?vs) @
                   map (\<lambda>f. folder_elem (fst f) (map (\<lambda>d. folder_elem (fst d) (snd d)) (snd f))) ?fs)])))"
    by (simp add: kml_text_def kml_root_def style_elems_def okrug_elem_def [abs_def])
  then show ?thesis
    by (intro exI [of _ ?fs] conjI districts_props expected_folders_keys expected_folders_subkeys)
qed

lemma sample_valid_rows:
  "filter row_ok sample_rows = [sample_rows ! 0, sample_rows ! 2, sample_rows ! 4]"
  unfolding sample_rows_eq by (simp add: row_ok_def str_eval)

lemma sample_districts: "districts (filter row_ok sample_rows) = [lit ''Alpha'', lit ''Zed'']"
  unfolding sample_valid_rows unfolding sample_rows_eq
  by (simp add: districts_def str_eval)

lemma sample_okrug_keys:
  "map okrug_key (filter row_ok sample_rows) = [lit ''West'', lit ''East'', lit ''West'']"
  unfolding sample_valid_rows unfolding sample_rows_eq
  by (simp add: okrug_key_def str_eval)

lemma sample_rayon_keys:
  "map rayon_key (filter row_ok sample_rows) = [lit ''Zed'', lit ''nan'', lit ''Alpha'']"
  unfolding sample_valid_rows unfolding sample_rows_eq
  by (simp add: rayon_key_def str_eval)

lemma sample_groups:
  "map (\<lambda>k. map rayon_key (filter (\<lambda>r. okrug_key r = k) (filter row_ok sample_rows)))
     [lit ''West'', lit ''East''] = [[lit ''Zed'', lit ''Alpha''], [lit ''nan'']]"
  unfolding sample_valid_rows unfolding sample_rows_eq
  by (simp add: okrug_key_def rayon_key_def str_eval)

theorem styles_sorted_folders_first_seen_witness:
  "\<exists>fs.
     snd (excel_to_kml sample_md5 sample_workbook sample_excel (lit ''Sheet1'') sample_out Map.empty)
       (lit ''out/r.kml'') =
       Some (replace (lit ''><'') (lit ''>'' @ [10] @ lit ''<'')
         (tostring
            (Element (lit ''kml'') [(lit ''xmlns'', lit ''http://www.opengis.net/kml/2.2'')] []
               [Element (lit ''Document'') [] []
                  (leaf ''name'' (lit ''r.kml'') #
                   map (\<lambda>d. create_style (style_id sample_md5 d) (kml_color_from_district sample_md5 d))
                     [lit ''Alpha'', lit ''Zed''] @
                   map (\<lambda>f. folder_elem (fst f) (map (\<lambda>d. folder_elem (fst d) (snd d)) (snd f))) fs)]))) \<and>
     map (\<lambda>f. (fst f, map fst (snd f))) fs =
       [(lit ''West'', [lit ''Zed'', lit ''Alpha'']), (lit ''East'', [lit ''nan''])]"
proof -
  from styles_sorted_folders_first_seen [OF sample_suffix sample_read sample_columns,
      of sample_md5 sample_out Map.empty]
  obtain fs where
    e: "snd (excel_to_kml sample_md5 sample_workbook sample_excel (lit ''Sheet1'') sample_out Map.empty)
       (path_str sample_out) =
       Some (replace (lit ''><'') (lit ''>'' @ [10] @ lit ''<'')
         (tostring
            (Element (lit ''kml'') [(lit ''xmlns'', lit ''http://www.opengis.net/kml/2.2'')] []
               [Element (lit ''Document'') [] []
                  (leaf ''name'' (path_name sample_out) #
                   map (\<lambda>d. create_style (style_id sample_md5 d) (kml_color_from_district sample_md5 d))
                     (districts (filter row_ok (sheet_rows sample_df))) @
                   map (\<lambda>f. folder_elem (fst f) (map (\<lambda>d. folder_elem (fst d) (snd d)) (snd f))) fs)])))"
    and k: "map fst fs = first_seen (map okrug_key (filter row_ok (sheet_rows sample_df)))"
    and s: "list_all (\<lambda>f. map fst (snd f) =
         first_seen (map rayon_key (filter (\<lambda>r. okrug_key r = fst f) (filter row_ok (sheet_rows sample_df)))))
       fs"
    by (elim exE conjE) (rule that, assumption+)
  from k have k': "map fst fs = [lit ''West'', lit ''East'']"
    by (simp add: sample_sheet_rows sample_okrug_keys lit_def)
  then obtain f1 f2 where f: "fs = [f1, f2]" "fst f1 = lit ''West''" "fst f2 = lit ''East''"
    by (auto simp: map_eq_Cons_conv)
  from s f sample_groups have "map fst (snd f1) = [lit ''Zed'', lit ''Alpha''] \<and>
      map fst (snd f2) = [lit ''nan'']"
    by (simp add: sample_sheet_rows lit_def)
  with f have m: "map (\<lambda>f. (fst f, map fst (snd f))) fs =
       [(lit ''West'', [lit ''Zed'', lit ''Alpha'']), (lit ''East'', [lit ''nan''])]"
    by simp
  have p: "path_str sample_out = lit ''out/r.kml''" "path_name sample_out = lit ''r.kml''"
    by (simp_all add: sample_out_def)
  from e have e': "snd (excel_to_kml sample_md5 sample_workbook sample_excel (lit ''Sheet1'') sample_out Map.empty)
       (lit ''out/r.kml'') =
       Some (replace (lit ''><'') (lit ''>'' @ [10] @ lit ''<'')
         (tostring
            (Element (lit ''kml'') [(lit ''xmlns'', lit ''http://www.opengis.net/kml/2.2'')] []
               [Element (lit ''Document'') [] []
                  (leaf ''name'' (lit ''r.kml'') #
                   map (\<lambda>d. create_style (style_id sample_md5 d) (kml_color_from_district sample_md5 d))
                     [lit ''Alpha'', lit ''Zed''] @
                   map (\<lambda>f. folder_elem (fst f) (map (\<lambda>d. folder_elem (fst d) (snd d)) (snd f))) fs)])))"
    by (simp only: p sample_sheet_rows sample_districts)
  show ?thesis
    by (rule exI [of _ fs], rule conjI, rule e', rule m)
qed

section \<open>The coordinates of a placemark\<close>

lemma str_nat_digits: "list_all is_digit (str_nat n)"
proof (induction n rule: str_nat.induct)
  case (1 n)
  have d: "is_digit (48 + n mod 10)" "n < 10 \<Longrightarrow> is_digit (48 + n)"
    by (simp_all add: is_digit_def)
  show ?case
  proof (cases "n < 10")
    case True
    with d show ?thesis by (subst str_nat.simps) simp
  next
    case False
    with d "1.IH" show ?thesis by (subst str_nat.simps) simp
  qed
qed

lemma str_nat_not_Nil: "str_nat n \<noteq> []"
  by (subst str_nat.simps) simp

lemma length_str_nat: "0 < k \<Longrightarrow> n < 10 ^ k \<Longrightarrow> length (str_nat n) \<le> k"
proof (induction n arbitrary: k rule: str_nat.induct)
  case (1 n)
  show ?case
  proof (cases "n < 10")
    case True
    with "1.prems" show ?thesis by (subst str_nat.simps) simp
  next
    case False
    with "1.prems" obtain j where j: "k = Suc j" "0 < j"
      by (cases k; cases "k - 1") auto
    with "1.prems" have "n div 10 < 10 ^ j"
      by (simp add: less_mult_imp_div_less mult.commute)
    with "1.IH" [OF False \<open>0 < j\<close>] False j show ?thesis
      by (subst str_nat.simps) simp
  qed
qed

lemma eight_decimals_shape:
  assumes "ip \<noteq> []" "list_all is_digit ip" "list_all is_digit fr" "length fr = 8"
  shows "eight_decimals (ip @ [46] @ fr)" "eight_decimals (45 # ip @ [46] @ fr)"
proof -
  have d: "\<not> is_digit 46" "\<not> is_digit 45"
    by (simp_all add: is_digit_def)
  have t: "takeWhile is_digit (ip @ 46 # fr) = ip" "dropWhile is_digit (ip @ 46 # fr) = 46 # fr"
    using assms(2) d by (simp_all add: list_all_iff)
  from assms(1) obtain c cs where c: "ip = c # cs" by (cases ip) auto
  with assms(2) d have "c \<noteq> 45" by auto
  with c t assms show "eight_decimals (ip @ [46] @ fr)"
    by (simp add: eight_decimals_def Let_def del: takeWhile.simps dropWhile.simps)
  from t assms show "eight_decimals (45 # ip @ [46] @ fr)"
    by (simp add: eight_decimals_def)
qed

lemma format_8f_finite: "eight_decimals (format_8f (Finite neg m e))"
proof -
  let ?n = "if 0 \<le> e then m * 2 ^ nat e * 10 ^ 8 else rne_div (m * 10 ^ 8) (2 ^ nat (- e))"
  have l: "length (pad_zeros 8 (str_nat (?n mod 10 ^ 8))) = 8"
    using length_str_nat [of 8 "?n mod 10 ^ 8"] by (simp add: pad_zeros_def)
  have z: "is_digit 48"
    by (simp add: is_digit_def)
  have a: "list_all is_digit (pad_zeros 8 (str_nat (?n mod 10 ^ 8)))"
    using str_nat_digits [of "?n mod 10 ^ 8"] z
    by (auto simp: pad_zeros_def list_all_iff simp del: replicate_numeral)
  show ?thesis
    using eight_decimals_shape [OF str_nat_not_Nil str_nat_digits a l, of "?n div 10 ^ 8"]
    by (simp add: Let_def lit_def)
qed

lemma find_append: "find P (xs @ ys) = (case find P xs of None \<Rightarrow> find P ys | Some x \<Rightarrow> Some x)"
  by (induction xs) auto

lemma tag_not_Point: "lit ''name'' \<noteq> lit ''Point''" "lit ''styleUrl'' \<noteq> lit ''Point''"
  "lit ''description'' \<noteq> lit ''Point''"
  by (simp_all add: lit_def)

lemma placemark_point:
  "point_coordinates (placemark sids r lat lon) =
     Some (format_8f lon @ lit '','' @ format_8f lat @ lit '',0'')"
proof -
  have "find (\<lambda>k. elem_tag k = lit ''Point'')
          (case sids (strip (str_cell (cell_rayon r))) of
             None \<Rightarrow> []
           | Some sid \<Rightarrow> if sid \<noteq> [] then [leaf ''styleUrl'' (lit ''#'' @ sid)] else []) = None"
    by (simp add: leaf_def tag_not_Point split: option.splits)
  then show ?thesis
    by (simp add: point_coordinates_def find_child_def placemark_def find_append leaf_def
        tag_not_Point coordinates_text_def)
qed

lemma in_range_eight_decimals:
  assumes "in_range_lat_lon (Some lat) (Some lon)"
  shows "eight_decimals (format_8f lon) \<and> eight_decimals (format_8f lat)"
proof (cases lat)
  case (Finite s m e)
  note lat = this
  show ?thesis
  proof (cases lon)
    case (Finite s' m' e')
    then show ?thesis
      unfolding lat Finite using format_8f_finite by blast
  next
    case (Inf b)
    with assms lat show ?thesis by auto
  next
    case Nan
    with assms lat show ?thesis by auto
  qed
next
  case (Inf b)
  with assms show ?thesis by auto
next
  case Nan
  with assms show ?thesis by auto
qed

text \<open>
  Claim C7. For a row that \<open>valid_row\<close> accepts, both coordinates are floats, the loop
  appends to the folder of the row a placemark whose Point holds the text of the
  coordinates, and that text is the longitude, a comma, the latitude, and
  \<^verbatim>\<open>,0\<close>, where each of the two numbers is written with an optional minus sign,
  its integer digits, a dot and exactly eight digits.
\<close>

theorem placemark_coordinates:
  assumes "fst (valid_row fname idx r ps)"
  shows "\<exists>lat lon.
     lat_num r = Some lat \<and> lon_num r = Some lon \<and>
     add_row sids r st =
       Inr (append_placemark (strip (str_cell (cell_okrug r))) (strip (str_cell (cell_rayon r)))
              (placemark sids r lat lon)
              (get_pair_folder (strip (str_cell (cell_okrug r))) (strip (str_cell (cell_rayon r)))
                 (fst st)),
            Suc (snd st)) \<and>
     point_coordinates (placemark sids r lat lon) =
       Some (format_8f lon @ lit '','' @ format_8f lat @ lit '',0'') \<and>
     eight_decimals (format_8f lon) \<and> eight_decimals (format_8f lat)"
proof -
  from assms have ok: "row_ok r"
    by (simp add: valid_row_fst)
  then obtain lat lon where n: "lat_num r = Some lat" "lon_num r = Some lon"
    using row_ok_nums by blast
  with ok have "in_range_lat_lon (Some lat) (Some lon)"
    by (simp add: row_ok_def)
  then have d: "eight_decimals (format_8f lon)" "eight_decimals (format_8f lat)"
    using in_range_eight_decimals by blast+
  note p = placemark_point [of sids r lat lon]
  have a: "add_row sids r st =
       Inr (append_placemark (strip (str_cell (cell_okrug r))) (strip (str_cell (cell_rayon r)))
              (placemark sids r lat lon)
              (get_pair_folder (strip (str_cell (cell_okrug r))) (strip (str_cell (cell_rayon r)))
                 (fst st)),
            Suc (snd st))"
    by (simp add: add_row_def n Let_def)
  show ?thesis
    by (rule exI [of _ lat], rule exI [of _ lon]) (simp only: n a p d simp_thms)
qed

lemma sample_formats:
  "format_8f (Finite False 5295656138085446 (- 47)) = lit ''37.62790000''"
  "format_8f (Finite False 7851561516608887 (- 47)) = lit ''55.78870000''"
  by (simp_all add: str_eval float_eval)

theorem placemark_coordinates_witness:
  "point_coordinates
     (placemark Map.empty (sample_rows ! 0) (Finite False 7851561516608887 (- 47))
        (Finite False 5295656138085446 (- 47))) =
     Some (lit ''37.62790000,55.78870000,0'') \<and>
   eight_decimals (lit ''37.62790000'') \<and> eight_decimals (lit ''55.78870000'')"
proof -
  have v: "fst (valid_row (lit ''r.xlsx'') 0 (sample_rows ! 0) [])"
    unfolding sample_rows_eq by (simp add: valid_row_def str_eval)
  from placemark_coordinates [OF v, of Map.empty "([], 0)"]
  obtain lat lon where
    n: "lat_num (sample_rows ! 0) = Some lat" "lon_num (sample_rows ! 0) = Some lon"
    and p: "point_coordinates (placemark Map.empty (sample_rows ! 0) lat lon) =
       Some (format_8f lon @ lit '','' @ format_8f lat @ lit '',0'')"
    and d: "eight_decimals (format_8f lon)" "eight_decimals (format_8f lat)"
    by (elim exE conjE) (rule that, assumption+)
  from n have l: "lat = Finite False 7851561516608887 (- 47)" "lon = Finite False 5295656138085446 (- 47)"
    unfolding sample_rows_eq by simp_all
  from p d show ?thesis
    unfolding l sample_formats by (simp add: lit_def)
qed

section \<open>The required columns\<close>

lemma excel_to_kml_missing_column:
  assumes "read_excel wb sheet_name = Some df" and "missing_column (df_columns df) = Some c"
  shows "excel_to_kml md5 wb excel_path sheet_name out_path files =
     (if map ascii_lower (path_suffix excel_path) \<in> {lit ''.xlsx'', lit ''.xlsm''}
      then Inl (SystemExit (path_name excel_path @ msg_column @ c))
      else Inl (SystemExit (path_name excel_path @ msg_suffix)), files)"
  using assms by (simp add: excel_to_kml_def)

lemma missing_column_Some:
  "c \<in> set required_cols \<Longrightarrow> Text c \<notin> set cols \<Longrightarrow> \<exists>c'. missing_column cols = Some c'"
  by (cases "missing_column cols") (auto simp: missing_column_def find_None_iff)

lemma missing_column_None:
  "\<forall>c \<in> set required_cols. Text c \<in> set cols \<Longrightarrow> missing_column cols = None"
  by (simp add: missing_column_def find_None_iff)

text \<open>
  Claim C8. The column labels are the cells of the third row of the sheet and the data
  are the rows below it; a sheet with no rows is read as a frame with no columns. There
  are ten required columns, each looked up by its exact name. Whenever the sheet is
  read and one of the required columns is absent, the conversion fails and the files
  are what they were before the call; with an accepted suffix, the failure is the
  \<open>SystemExit\<close> that names the first required column that is absent. When all ten are
  present and the suffix is accepted, the conversion succeeds and writes the output
  file.
\<close>

theorem missing_column_aborts:
  assumes "read_excel wb sheet_name = Some df"
  shows "(\<exists>sh. wb sheet_name = Some sh \<and>
        (sh = [] \<and> df = \<lparr>df_columns = [], df_rows = []\<rparr> \<or>
         2 < length sh \<and> df = \<lparr>df_columns = sh ! 2, df_rows = drop 3 sh\<rparr>)) \<and>
     length required_cols = 10 \<and>
     ((\<exists>c \<in> set required_cols. Text c \<notin> set (df_columns df)) \<longrightarrow>
        snd (excel_to_kml md5 wb excel_path sheet_name out_path files) = files \<and>
        (\<exists>e. fst (excel_to_kml md5 wb excel_path sheet_name out_path files) = Inl e) \<and>
        (map ascii_lower (path_suffix excel_path) \<in> {lit ''.xlsx'', lit ''.xlsm''} \<longrightarrow>
           (\<exists>c'. find (\<lambda>c. Text c \<notin> set (df_columns df)) required_cols = Some c' \<and>
              fst (excel_to_kml md5 wb excel_path sheet_name out_path files) =
                Inl (SystemExit (path_name excel_path @ msg_column @ c'))))) \<and>
     ((\<forall>c \<in> set required_cols. Text c \<in> set (df_columns df)) \<and>
      map ascii_lower (path_suffix excel_path) \<in> {lit ''.xlsx'', lit ''.xlsm''} \<longrightarrow>
        (\<exists>res txt. excel_to_kml md5 wb excel_path sheet_name out_path files =
           (Inr res, files(path_str out_path \<mapsto> txt))))"
proof -
  note r = assms
  have h: "\<exists>sh. wb sheet_name = Some sh \<and>
        (sh = [] \<and> df = \<lparr>df_columns = [], df_rows = []\<rparr> \<or>
         2 < length sh \<and> df = \<lparr>df_columns = sh ! 2, df_rows = drop 3 sh\<rparr>)"
  proof (cases "wb sheet_name")
    case None
    with r show ?thesis
      by (simp add: read_excel_def)
  next
    case (Some sh)
    with r have "sh = [] \<and> df = \<lparr>df_columns = [], df_rows = []\<rparr> \<or>
         2 < length sh \<and> df = \<lparr>df_columns = sh ! 2, df_rows = drop 3 sh\<rparr>"
      by (auto simp add: read_excel_def not_less split: if_splits)
    with Some show ?thesis
      by simp
  qed
  have n: "length required_cols = 10"
    by (simp add: required_cols_def)
  have m: "snd (excel_to_kml md5 wb excel_path sheet_name out_path files) = files \<and>
        (\<exists>e. fst (excel_to_kml md5 wb excel_path sheet_name out_path files) = Inl e) \<and>
        (map ascii_lower (path_suffix excel_path) \<in> {lit ''.xlsx'', lit ''.xlsm''} \<longrightarrow>
           (\<exists>c'. find (\<lambda>c. Text c \<notin> set (df_columns df)) required_cols = Some c' \<and>
              fst (excel_to_kml md5 wb excel_path sheet_name out_path files) =
                Inl (SystemExit (path_name excel_path @ msg_column @ c'))))"
    if "\<exists>c \<in> set required_cols. Text c \<notin> set (df_columns df)"
  proof -
    from that obtain c' where c': "missing_column (df_columns df) = Some c'"
      using missing_column_Some [of _ "df_columns df"] by auto
    then have f: "find (\<lambda>c. Text c \<notin> set (df_columns df)) required_cols = Some c'"
      by (simp add: missing_column_def)
    show ?thesis
      using excel_to_kml_missing_column [OF r c', of md5 excel_path out_path files] f
      by simp
  qed
  have s: "\<exists>res txt. excel_to_kml md5 wb excel_path sheet_name out_path files =
           (Inr res, files(path_str out_path \<mapsto> txt))"
    if "\<forall>c \<in> set required_cols. Text c \<in> set (df_columns df)"
      and "map ascii_lower (path_suffix excel_path) \<in> {lit ''.xlsx'', lit ''.xlsm''}"
  proof -
    from that(1) have "missing_column (df_columns df) = None"
      by (simp add: missing_column_None)
    from excel_to_kml_success [OF that(2) r this, of md5 out_path files] show ?thesis
      by blast
  qed
  from h n m s show ?thesis
    by blast
qed

lemma sample_bad_missing:
  "find (\<lambda>c. Text c \<notin> set (sample_bad_sheet ! 2)) required_cols = Some col_okrug"
  by (simp add: sample_bad_sheet_def col_defs lit_def)

lemma sample_bad_read:
  "read_excel (\<lambda>nm. Some sample_bad_sheet) (lit ''Sheet1'') =
     Some \<lparr>df_columns = sample_bad_sheet ! 2, df_rows = drop 3 sample_bad_sheet\<rparr>"
  by (simp add: read_excel_def sample_bad_sheet_def)

lemma empty_sheet_read:
  "read_excel (\<lambda>nm. Some []) (lit ''Sheet1'') = Some \<lparr>df_columns = [], df_rows = []\<rparr>"
  by (simp add: read_excel_def)

lemma empty_sheet_missing:
  "find (\<lambda>c. Text c \<notin> set []) required_cols = Some col_message_id"
  by (simp add: required_cols_def)

theorem missing_column_aborts_witness:
  "excel_to_kml sample_md5 (\<lambda>nm. Some sample_bad_sheet) sample_excel (lit ''Sheet1'') sample_out
     Map.empty =
   (Inl (SystemExit (lit ''r.xlsx'' @ msg_column @ col_okrug)), Map.empty) \<and>
   excel_to_kml sample_md5 (\<lambda>nm. Some []) sample_excel (lit ''Sheet1'') sample_out Map.empty =
   (Inl (SystemExit (lit ''r.xlsx'' @ msg_column @ col_message_id)), Map.empty)"
proof -
  have c: "\<exists>c \<in> set required_cols. Text c \<notin> set (sample_bad_sheet ! 2)"
    by (rule bexI [of _ col_okrug]) (simp_all add: sample_bad_sheet_def col_defs lit_def)
  from missing_column_aborts [OF sample_bad_read, where ?md5.0 = sample_md5
      and excel_path = sample_excel and out_path = sample_out and files = Map.empty]
    c sample_suffix sample_bad_missing
  have a: "snd (excel_to_kml sample_md5 (\<lambda>nm. Some sample_bad_sheet) sample_excel (lit ''Sheet1'')
          sample_out Map.empty) = Map.empty \<and>
        fst (excel_to_kml sample_md5 (\<lambda>nm. Some sample_bad_sheet) sample_excel (lit ''Sheet1'')
          sample_out Map.empty) =
        Inl (SystemExit (path_name sample_excel @ msg_column @ col_okrug))"
    by auto
  have e: "\<exists>c \<in> set required_cols. Text c \<notin> set []"
    by (rule bexI [of _ col_message_id]) (simp_all add: required_cols_def)
  from missing_column_aborts [OF empty_sheet_read, where ?md5.0 = sample_md5
      and excel_path = sample_excel and out_path = sample_out and files = Map.empty]
    e sample_suffix empty_sheet_missing
  have b: "snd (excel_to_kml sample_md5 (\<lambda>nm. Some []) sample_excel (lit ''Sheet1'')
          sample_out Map.empty) = Map.empty \<and>
        fst (excel_to_kml sample_md5 (\<lambda>nm. Some []) sample_excel (lit ''Sheet1'')
          sample_out Map.empty) =
        Inl (SystemExit (path_name sample_excel @ msg_column @ col_message_id))"
    by auto
  from a b show ?thesis
    by (simp add: prod_eq_iff sample_excel_def)
qed

section \<open>Rows without a district\<close>

lemma map_of_keyed:
  "map_of (map (\<lambda>k. (k, g k)) ks) k = (if k \<in> set ks then Some (g k) else None)"
  by (induction ks) auto

lemma map_of_group_by:
  "map_of (group_by key f xs) k =
     (if k \<in> key ` set xs then Some (f (filter (\<lambda>x. key x = k) xs)) else None)"
  by (simp add: group_by_def map_of_keyed)

lemma folder_placemarks_expected:
  assumes "r \<in> set vs"
  shows "folder_placemarks (expected_folders sids vs) (okrug_key r) (rayon_key r) =
     concat (map (row_placemark sids)
       (filter (\<lambda>x. rayon_key x = rayon_key r) (filter (\<lambda>x. okrug_key x = okrug_key r) vs)))"
proof -
  from assms have "rayon_key r \<in> rayon_key ` set (filter (\<lambda>x. okrug_key x = okrug_key r) vs)"
    by auto
  with assms show ?thesis
    by (simp add: folder_placemarks_def expected_folders_def map_of_group_by del: filter_filter)
qed

lemma style_ids_None: "style_ids md5 ds k = None \<longleftrightarrow> k \<notin> set ds"
  by (simp add: style_ids_def map_of_keyed)

lemma strip_nan: "strip (lit ''nan'') = lit ''nan''"
  by (simp add: str_eval)

text \<open>
  Claim C10. An accepted row whose district cell is missing still gets its placemark: it
  is appended to the folder named \<^verbatim>\<open>nan\<close> (the text of the missing value) of the
  okrug of the row. The styles are made for the district cells that are not missing,
  and the placemark of the row has no styleUrl child: its children are the name, the
  description and the point. The sheet is one that \<^verbatim>\<open>read_excel\<close> can produce: pandas
  reads a cell with the text \<^verbatim>\<open>nan\<close> as a missing cell, so no accepted row has that
  text as its district.
\<close>

theorem missing_district_placemark:
  assumes "map ascii_lower (path_suffix excel_path) \<in> {lit ''.xlsx'', lit ''.xlsm''}"
    and "read_excel wb sheet_name = Some df"
    and "missing_column (df_columns df) = None"
    and "r \<in> set (sheet_rows df)" and "row_ok r" and "cell_rayon r = NA"
    and "\<forall>r' \<in> set (sheet_rows df). row_ok r' \<longrightarrow> cell_rayon r' \<noteq> Text (lit ''nan'')"
  shows "\<exists>fs lat lon.
     snd (excel_to_kml md5 wb excel_path sheet_name out_path files) (path_str out_path) =
       Some (replace (lit ''><'') (lit ''>'' @ [10] @ lit ''<'')
         (tostring (kml_root (path_name out_path)
            (style_elems md5 (districts (filter row_ok (sheet_rows df)))) fs))) \<and>
     lat_num r = Some lat \<and> lon_num r = Some lon \<and>
     Element (lit ''Placemark'') [] []
       [leaf ''name'' (strip (str_cell (cell_id r))),
        leaf ''description''
          (build_description (cell_addr r) (cell_obj r) (cell_topic r) (cell_text r) (row_links r)),
        Element (lit ''Point'') [] [] [leaf ''coordinates'' (coordinates_text lon lat)]]
       \<in> set (folder_placemarks fs (strip (str_cell (cell_okrug r))) (lit ''nan'')) \<and>
     set (districts (filter row_ok (sheet_rows df))) =
       {d. \<exists>r' \<in> set (filter row_ok (sheet_rows df)). cell_rayon r' = Text d} \<and>
     style_ids md5 (districts (filter row_ok (sheet_rows df))) (strip (str_cell (cell_rayon r))) = None"
proof -
  let ?vs = "filter row_ok (sheet_rows df)"
  let ?sids = "style_ids md5 (districts ?vs)"
  let ?fs = "expected_folders ?sids ?vs"
  from assms(5) obtain lat lon where n: "lat_num r = Some lat" "lon_num r = Some lon"
    using row_ok_nums by blast
  have k: "rayon_key r = lit ''nan''"
    using assms(6) by (simp add: rayon_key_def strip_nan)
  have "lit ''nan'' \<notin> set (districts ?vs)"
    using assms(7) by (auto simp: districts_props(3))
  then have s: "?sids (lit ''nan'') = None"
    by (simp add: style_ids_None)
  then have s': "?sids (strip (str_cell (cell_rayon r))) = None"
    using k by (simp add: rayon_key_def)
  have p: "row_placemark ?sids r =
     [Element (lit ''Placemark'') [] []
       [leaf ''name'' (strip (str_cell (cell_id r))),
        leaf ''description''
          (build_description (cell_addr r) (cell_obj r) (cell_topic r) (cell_text r) (row_links r)),
        Element (lit ''Point'') [] [] [leaf ''coordinates'' (coordinates_text lon lat)]]]"
    using s' by (simp add: row_placemark_def n placemark_def)
  from assms(4,5) have v: "r \<in> set ?vs"
    by simp
  have "set (row_placemark ?sids r) \<subseteq> set (folder_placemarks ?fs (okrug_key r) (rayon_key r))"
    unfolding folder_placemarks_expected [OF v] using v by auto
  with p k have m: "Element (lit ''Placemark'') [] []
       [leaf ''name'' (strip (str_cell (cell_id r))),
        leaf ''description''
          (build_description (cell_addr r) (cell_obj r) (cell_topic r) (cell_text r) (row_links r)),
        Element (lit ''Point'') [] [] [leaf ''coordinates'' (coordinates_text lon lat)]]
       \<in> set (folder_placemarks ?fs (strip (str_cell (cell_okrug r))) (lit ''nan''))"
    by (simp add: okrug_key_def)
  have e: "snd (excel_to_kml md5 wb excel_path sheet_name out_path files) (path_str out_path) =
       Some (replace (lit ''><'') (lit ''>'' @ [10] @ lit ''<'')
         (tostring (kml_root (path_name out_path) (style_elems md5 (districts ?vs)) ?fs)))"
    using excel_to_kml_success [OF assms(1-3), of md5 out_path files] by (simp add: kml_text_def)
  show ?thesis
    by (rule exI [of _ ?fs], rule exI [of _ lat], rule exI [of _ lon])
      (intro conjI e n m districts_props(3) s')
qed

lemma sample_row2:
  "sample_rows ! 2 \<in> set (sheet_rows sample_df)" "row_ok (sample_rows ! 2)"
  "cell_rayon (sample_rows ! 2) = NA"
  "cell_id (sample_rows ! 2) = Text (lit ''12347'')"
  "cell_okrug (sample_rows ! 2) = Text (lit ''East'')"
  "lat_num (sample_rows ! 2) = Some (Finite True 7036874417766400 (- 49))"
  "lon_num (sample_rows ! 2) = Some (Finite False 6333186975989760 (- 45))"
  "build_description (cell_addr (sample_rows ! 2)) (cell_obj (sample_rows ! 2))
     (cell_topic (sample_rows ! 2)) (cell_text (sample_rows ! 2)) (row_links (sample_rows ! 2)) =
   build_description NA NA NA NA [lit ''nan'']"
  unfolding sample_sheet_rows unfolding sample_rows_eq
  by (simp_all add: row_ok_def row_links_def str_eval)

lemma sample_no_nan_text:
  "\<forall>r' \<in> set (sheet_rows sample_df). row_ok r' \<longrightarrow> cell_rayon r' \<noteq> Text (lit ''nan'')"
  unfolding sample_sheet_rows unfolding sample_rows_eq
  by (simp add: lit_def)

lemma sample_coordinates:
  "coordinates_text (Finite False 6333186975989760 (- 45)) (Finite True 7036874417766400 (- 49)) =
     lit ''180.00000000,-12.50000000,0''"
  by (simp add: coordinates_text_def str_eval float_eval)

theorem missing_district_placemark_witness:
  "\<exists>fs.
     snd (excel_to_kml sample_md5 sample_workbook sample_excel (lit ''Sheet1'') sample_out Map.empty)
       (lit ''out/r.kml'') =
       Some (replace (lit ''><'') (lit ''>'' @ [10] @ lit ''<'')
         (tostring (kml_root (lit ''r.kml'')
            (style_elems sample_md5 [lit ''Alpha'', lit ''Zed'']) fs))) \<and>
     Element (lit ''Placemark'') [] []
       [leaf ''name'' (lit ''12347''),
        leaf ''description'' (build_description NA NA NA NA [lit ''nan'']),
        Element (lit ''Point'') [] [] [leaf ''coordinates'' (lit ''180.00000000,-12.50000000,0'')]]
       \<in> set (folder_placemarks fs (lit ''East'') (lit ''nan''))"
proof -
  from missing_district_placemark [OF sample_suffix sample_read sample_columns sample_row2(1-3)
      sample_no_nan_text, of sample_md5 sample_out Map.empty]
  obtain fs lat lon where
    e: "snd (excel_to_kml sample_md5 sample_workbook sample_excel (lit ''Sheet1'') sample_out Map.empty)
         (path_str sample_out) =
       Some (replace (lit ''><'') (lit ''>'' @ [10] @ lit ''<'')
         (tostring (kml_root (path_name sample_out)
            (style_elems sample_md5 (districts (filter row_ok (sheet_rows sample_df)))) fs)))"
    and n: "lat_num (sample_rows ! 2) = Some lat" "lon_num (sample_rows ! 2) = Some lon"
    and m: "Element (lit ''Placemark'') [] []
       [leaf ''name'' (strip (str_cell (cell_id (sample_rows ! 2)))),
        leaf ''description''
          (build_description (cell_addr (sample_rows ! 2)) (cell_obj (sample_rows ! 2))
             (cell_topic (sample_rows ! 2)) (cell_text (sample_rows ! 2)) (row_links (sample_rows ! 2))),
        Element (lit ''Point'') [] [] [leaf ''coordinates'' (coordinates_text lon lat)]]
       \<in> set (folder_placemarks fs (strip (str_cell (cell_okrug (sample_rows ! 2)))) (lit ''nan''))"
    by (elim exE conjE) (rule that, assumption+)
  from n have l: "lat = Finite True 7036874417766400 (- 49)" "lon = Finite False 6333186975989760 (- 45)"
    by (simp_all add: sample_row2)
  have s: "strip (lit ''12347'') = lit ''12347''" "strip (lit ''East'') = lit ''East''"
    by (simp_all add: str_eval)
  have p: "path_str sample_out = lit ''out/r.kml''" "path_name sample_out = lit ''r.kml''"
    by (simp_all add: sample_out_def)
  from e have e': "snd (excel_to_kml sample_md5 sample_workbook sample_excel (lit ''Sheet1'') sample_out Map.empty)
       (lit ''out/r.kml'') =
       Some (replace (lit ''><'') (lit ''>'' @ [10] @ lit ''<'')
         (tostring (kml_root (lit ''r.kml'')
            (style_elems sample_md5 [lit ''Alpha'', lit ''Zed'']) fs)))"
    by (simp only: p sample_sheet_rows sample_districts)
  from m have m': "Element (lit ''Placemark'') [] []
       [leaf ''name'' (lit ''12347''),
        leaf ''description'' (build_description NA NA NA NA [lit ''nan'']),
        Element (lit ''Point'') [] [] [leaf ''coordinates'' (lit ''180.00000000,-12.50000000,0'')]]
       \<in> set (folder_placemarks fs (lit ''East'') (lit ''nan''))"
    by (simp only: l sample_row2 sample_coordinates str_cell.simps s)
  show ?thesis
    by (rule exI [of _ fs], rule conjI, rule e', rule m')
qed

section \<open>The colour and the identifier of a style\<close>

lemma py_mod_eq:
  assumes "of_int z * b \<le> a" "a < (of_int z + 1) * b" "0 < b"
  shows "py_mod a b = a - b * of_int z"
proof -
  have "\<lfloor>a / b\<rfloor> = z"
    using assms by (intro floor_unique) (simp_all add: field_simps)
  then show ?thesis by (simp add: py_mod_def)
qed

lemma hsv_sector:
  fixes x :: rat
  assumes "of_nat j \<le> x" "x < of_nat j + 1" "j < 6"
  shows "py_mod x 2 = x - 2 * of_int (int j div 2)"
    and "py_mod (5 + x) 6 = 5 + x - 6 * of_int ((5 + int j) div 6)"
    and "py_mod (3 + x) 6 = 3 + x - 6 * of_int ((3 + int j) div 6)"
    and "py_mod (1 + x) 6 = 1 + x - 6 * of_int ((1 + int j) div 6)"
proof -
  from assms(3) consider "j = 0" | "j = 1" | "j = 2" | "j = 3" | "j = 4" | "j = 5"
    by linarith
  then have "py_mod x 2 = x - 2 * of_int (int j div 2) \<and>
     py_mod (5 + x) 6 = 5 + x - 6 * of_int ((5 + int j) div 6) \<and>
     py_mod (3 + x) 6 = 3 + x - 6 * of_int ((3 + int j) div 6) \<and>
     py_mod (1 + x) 6 = 1 + x - 6 * of_int ((1 + int j) div 6)"
    using assms(1,2) by cases (intro conjI py_mod_eq; simp)+
  then show "py_mod x 2 = x - 2 * of_int (int j div 2)"
    and "py_mod (5 + x) 6 = 5 + x - 6 * of_int ((5 + int j) div 6)"
    and "py_mod (3 + x) 6 = 3 + x - 6 * of_int ((3 + int j) div 6)"
    and "py_mod (1 + x) 6 = 1 + x - 6 * of_int ((1 + int j) div 6)"
    by simp_all
qed

lemma hsv_channels_standard:
  assumes "h < 360"
  shows "hsv_channels h = hsv_to_rgb (of_nat h) (7 / 10) (95 / 100)"
proof -
  define x :: rat where "x = of_nat h / 60"
  define j where "j = h div 60"
  have j: "j < 6" "60 * j \<le> h" "h < 60 * j + 60"
    using assms by (simp_all add: j_def less_mult_imp_div_less) 
  then have "of_nat (60 * j) \<le> (of_nat h :: rat)" "(of_nat h :: rat) < of_nat (60 * j + 60)"
    by (simp_all only: of_nat_le_iff of_nat_less_iff)
  then have x: "of_nat j \<le> x" "x < of_nat j + 1"
    by (simp_all add: x_def field_simps)
  note m = hsv_sector [OF x j(1)]
  from j(1) consider "j = 0" | "j = 1" | "j = 2" | "j = 3" | "j = 4" | "j = 5"
    by linarith
  then show ?thesis
    using j x m unfolding hsv_channels_def hsv_to_rgb_def Let_def x_def [symmetric]
    by cases (auto simp add: min_def max_def abs_if field_simps)
qed

lemma hsv_to_rgb_bounds:
  assumes "0 \<le> s" "s \<le> 1" "0 \<le> v"
  shows "v - v * s \<le> fst (hsv_to_rgb h s v) \<and> fst (hsv_to_rgb h s v) \<le> v \<and>
         v - v * s \<le> fst (snd (hsv_to_rgb h s v)) \<and> fst (snd (hsv_to_rgb h s v)) \<le> v \<and>
         v - v * s \<le> snd (snd (hsv_to_rgb h s v)) \<and> snd (snd (hsv_to_rgb h s v)) \<le> v"
proof -
  have "v - v * s \<le> v - v * s * max 0 (min (min k (4 - k)) 1) \<and>
        v - v * s * max 0 (min (min k (4 - k)) 1) \<le> v" for k :: rat
  proof -
    have "0 \<le> max 0 (min (min k (4 - k)) 1)" "max 0 (min (min k (4 - k)) 1) \<le> 1"
      by simp_all
    moreover have "0 \<le> v * s"
      using assms by simp
    ultimately show ?thesis
      by (simp add: mult_left_le)
  qed
  then show ?thesis
    by (simp add: hsv_to_rgb_def Let_def)
qed

lemma hex_upper_byte: "n < 256 \<Longrightarrow> format_02X (int n) = hex_byte n"
proof (cases "n < 16")
  case True
  then show ?thesis
    by (simp add: format_02X_def hex_byte_def pad_zeros_def hex_upper.simps hexdigit_upper_def)
next
  case False
  assume "n < 256"
  with False have "n div 16 < 16"
    by simp
  with False show ?thesis
    by (simp add: format_02X_def hex_byte_def pad_zeros_def hex_upper.simps [of n]
        hex_upper.simps [of "n div 16"])
qed

lemma channel_byte:
  fixes c :: rat
  assumes "0 \<le> c" "c \<le> 19 / 20"
  shows "format_02X (py_int (c * 255)) = hex_byte (nat \<lfloor>c * 255\<rfloor>)" and "nat \<lfloor>c * 255\<rfloor> \<le> 255"
proof -
  define z where "z = \<lfloor>c * 255\<rfloor>"
  have "z < 256"
    using assms by (simp add: z_def floor_less_iff)
  moreover have "0 \<le> z"
    using assms by (simp add: z_def)
  ultimately have n: "nat z < 256"
    by linarith
  then show "nat \<lfloor>c * 255\<rfloor> \<le> 255"
    by (simp add: z_def)
  from assms have "py_int (c * 255) = int (nat z)"
    by (simp add: py_int_def z_def)
  with n show "format_02X (py_int (c * 255)) = hex_byte (nat \<lfloor>c * 255\<rfloor>)"
    by (simp only: hex_upper_byte z_def)
qed

lemma hex_value_lower: "d < 16 \<Longrightarrow> hex_value (hexdigit_lower d) = d"
  by (simp add: hex_value_def hexdigit_lower_def)

lemma int_of_hex_digits: "int_of_hex (hex_digits k n) = n mod 16 ^ k"
proof (induction k arbitrary: n)
  case 0
  then show ?case by (simp add: int_of_hex_def)
next
  case (Suc k)
  have "int_of_hex (hex_digits (Suc k) n) = 16 * int_of_hex (hex_digits k (n div 16)) + n mod 16"
    by (simp add: int_of_hex_def hex_value_lower)
  also have "\<dots> = 16 * (n div 16 mod 16 ^ k) + n mod 16"
    by (simp add: Suc.IH)
  also have "\<dots> = n mod 16 ^ Suc k"
    by (simp add: mod_mult2_eq)
  finally show ?case .
qed

lemma int_of_hex_hexdigest: "int_of_hex (hexdigest w) = unat w"
proof -
  have "unat w < 2 ^ 128"
    using unsigned_less [of w] by simp
  then have "unat w mod 16 ^ 32 = unat w"
    by simp
  then show ?thesis
    by (simp add: hexdigest_def int_of_hex_digits)
qed

lemma length_hex_digits: "length (hex_digits k n) = k"
  by (induction k arbitrary: n) simp_all

lemma frac_margin:
  fixes n :: nat
  assumes "50 \<le> n mod 4000" "n mod 4000 \<le> 3950"
  shows "off_integer (of_nat n / 4000)"
proof -
  define q where "q = n div 4000"
  define r where "r = n mod 4000"
  have n: "n = 4000 * q + r"
    by (simp add: q_def r_def)
  have r: "r < 4000"
    by (simp add: r_def)
  have a: "(of_nat n / 4000 :: rat) = of_int (int q) + of_nat r / 4000"
    by (simp add: n field_simps)
  have b: "frac (of_int (int q) + of_nat r / 4000 :: rat) = of_nat r / 4000"
    using r by (subst frac_unique_iff) (simp add: field_simps)
  have "frac (of_nat n / 4000 :: rat) = of_nat r / 4000"
    unfolding a by (rule b)
  moreover have "(50 :: rat) \<le> of_nat r" "(of_nat r :: rat) \<le> 3950"
    using assms unfolding r_def [symmetric] of_nat_numeral [symmetric, where ?'a = rat] of_nat_le_iff
    by simp_all
  ultimately show ?thesis
    by (simp add: off_integer_def)
qed

lemma ramp_margin:
  "\<forall>t \<in> {..<61 :: nat}. 50 \<le> (290700 + 11305 * t) mod 4000 \<and> (290700 + 11305 * t) mod 4000 \<le> 3950"
  by (simp add: lessThan_nat_numeral lessThan_Suc)

lemma ramp_off_integer:
  assumes "t \<le> 60"
  shows "off_integer ((57 / 200 + 133 / 200 * (of_nat t / 60)) * 255)"
proof -
  from assms have "t \<in> {..<61}"
    by simp
  with ramp_margin have "off_integer (of_nat (290700 + 11305 * t) / 4000)"
    by (intro frac_margin) blast+
  moreover have "(of_nat (290700 + 11305 * t) / 4000 :: rat) = (57 / 200 + 133 / 200 * (of_nat t / 60)) * 255"
    by (simp add: field_simps)
  ultimately show ?thesis
    by (simp only:)
qed

lemma channel_margin:
  assumes "h < 360"
  shows "off_integer (fst (hsv_channels h) * 255) \<and> off_integer (fst (snd (hsv_channels h)) * 255) \<and>
    off_integer (snd (snd (hsv_channels h)) * 255)"
proof -
  define x :: rat where "x = of_nat h / 60"
  define j where "j = h div 60"
  define t where "t = (if even j then h mod 60 else 60 - h mod 60)"
  define lo :: rat where "lo = 57 / 200"
  define hi :: rat where "hi = 19 / 20"
  define mid :: rat where "mid = 57 / 200 + 133 / 200 * (of_nat t / 60)"
  have t: "t \<le> 60"
    by (simp add: t_def)
  have ml: "off_integer (lo * 255)"
    using ramp_off_integer [of 0] by (simp add: lo_def)
  have mh: "off_integer (hi * 255)"
    using ramp_off_integer [of 60] by (simp add: hi_def)
  have mm: "off_integer (mid * 255)"
    using ramp_off_integer [OF t] by (simp add: mid_def)
  have j: "j < 6" "60 * j \<le> h" "h < 60 * j + 60"
    using assms by (simp_all add: j_def less_mult_imp_div_less)
  then have "of_nat (60 * j) \<le> (of_nat h :: rat)" "(of_nat h :: rat) < of_nat (60 * j + 60)"
    by (simp_all only: of_nat_le_iff of_nat_less_iff)
  then have x: "of_nat j \<le> x" "x < of_nat j + 1"
    by (simp_all add: x_def field_simps)
  have "h = 60 * j + h mod 60"
    by (simp add: j_def)
  then have "(of_nat h :: rat) = 60 * of_nat j + of_nat (h mod 60)"
    by (metis of_nat_add of_nat_mult of_nat_numeral)
  then have xr: "x = of_nat j + of_nat (h mod 60) / 60"
    by (simp add: x_def)
  have "(of_nat (60 - h mod 60) :: rat) = 60 - of_nat (h mod 60)"
    by simp
  then have tx: "(of_nat t :: rat) / 60 = (if even j then x - of_nat j else of_nat j + 1 - x)"
    by (simp add: t_def xr field_simps)
  note m = hsv_sector(1) [OF x j(1)]
  from j(1) consider "j = 0" | "j = 1" | "j = 2" | "j = 3" | "j = 4" | "j = 5"
    by linarith
  then have "hsv_channels h \<in> {(hi, mid, lo), (mid, hi, lo), (lo, hi, mid), (lo, mid, hi),
      (mid, lo, hi), (hi, lo, mid)}"
    using j x m tx unfolding hsv_channels_def Let_def x_def [symmetric] lo_def hi_def mid_def
    by cases (simp_all add: abs_if field_simps)
  then show ?thesis
    using ml mh mm by auto
qed

text \<open>
  Claim C5. The hue is the digest of the name, read from its hexadecimal digits, modulo
  360. The colour is \<^verbatim>\<open>FF\<close> followed by the blue, green and red channels, each
  written as two upper-case hexadecimal digits, where a channel is the channel of the
  standard conversion of hue, saturation 0.7 and value 0.95 to red, green and blue,
  times 255 and rounded down, which is at most 255. The style identifier is
  \<^verbatim>\<open>style_\<close> followed by the first eight of the 32 digits of the digest. Both are
  functions of the name and of nothing else.
\<close>

theorem kml_color_of_digest:
  "int_of_hex (hexdigest (md5 d)) = unat (md5 d) \<and>
   kml_color_from_district md5 d =
     (let h = int_of_hex (hexdigest (md5 d)) mod 360;
          rgb = hsv_to_rgb (of_nat h) (7 / 10) (95 / 100);
          R = nat \<lfloor>fst rgb * 255\<rfloor>;
          G = nat \<lfloor>fst (snd rgb) * 255\<rfloor>;
          B = nat \<lfloor>snd (snd rgb) * 255\<rfloor>
      in lit ''FF'' @ hex_byte B @ hex_byte G @ hex_byte R) \<and>
   (let h = int_of_hex (hexdigest (md5 d)) mod 360;
        rgb = hsv_to_rgb (of_nat h) (7 / 10) (95 / 100)
    in nat \<lfloor>fst rgb * 255\<rfloor> \<le> 255 \<and> nat \<lfloor>fst (snd rgb) * 255\<rfloor> \<le> 255 \<and>
       nat \<lfloor>snd (snd rgb) * 255\<rfloor> \<le> 255) \<and>
   length (kml_color_from_district md5 d) = 8 \<and>
   style_id md5 d = lit ''style_'' @ take 8 (hexdigest (md5 d)) \<and>
   length (hexdigest (md5 d)) = 32 \<and>
   length (style_id md5 d) = 14"
proof -
  let ?h = "unat (md5 d) mod 360"
  let ?rgb = "hsv_to_rgb (of_nat ?h) (7 / 10) (95 / 100)"
  have c: "hsv_channels ?h = ?rgb"
    by (rule hsv_channels_standard) simp
  have b: "0 \<le> fst ?rgb \<and> fst ?rgb \<le> 19 / 20 \<and> 0 \<le> fst (snd ?rgb) \<and> fst (snd ?rgb) \<le> 19 / 20 \<and>
      0 \<le> snd (snd ?rgb) \<and> snd (snd ?rgb) \<le> 19 / 20"
    using hsv_to_rgb_bounds [of "7 / 10" "95 / 100" "of_nat ?h"] by simp
  have k: "kml_color_from_district md5 d =
      lit ''FF'' @ hex_byte (nat \<lfloor>snd (snd ?rgb) * 255\<rfloor>) @ hex_byte (nat \<lfloor>fst (snd ?rgb) * 255\<rfloor>) @
      hex_byte (nat \<lfloor>fst ?rgb * 255\<rfloor>)"
    using b by (simp add: kml_color_from_district_def Let_def c channel_byte(1))
  have l: "length (hexdigest (md5 d)) = 32"
    by (simp add: hexdigest_def length_hex_digits)
  show ?thesis
    using b k l
    by (simp add: int_of_hex_hexdigest Let_def channel_byte(2) style_id_def hex_byte_def lit_def)
qed

end
